theory Spec2Isabelle
  imports Complex_Main
begin

section \<open>Arrays and errors\<close>

text \<open>
  The two models are written against numpy.  A one-dimensional array is a list; an array
  of two or more dimensions is a record of its shape and of its entries in row-major
  order, which is the order \<^verbatim>\<open>ravel\<close> and \<^verbatim>\<open>reshape\<close> read and write.
  Floating-point numbers are idealised as reals (and complex numbers): every statement
  below about a computed value is a statement of exact arithmetic.  Statements about
  moving data (packing, decoding, indexing) are polymorphic in the entry type.

  The program rounds where the model does not.  In particular the values of
  \<^verbatim>\<open>np.linspace\<close> and the sums of the constructor's sanity check are rounded to
  doubles, so for a large \<open>kmax\<close> the program's sanity check can fail on rounding alone
  where the model's sums are exactly zero.  The theorems about the constructor are
  therefore stated for the models it returns, or relative to the outcome of its checks,
  and do not rest on the exact values of the grid.
\<close>

text \<open>
  Every \<^verbatim>\<open>assert\<close> of the two modules raises the same Python exception; the model
  records which statement raised it.
\<close>

datatype assert_site =
    Odd_nx        \<comment> \<open>hasegawa\_mima.py, line 10\<close>
  | Odd_ny        \<comment> \<open>hasegawa\_mima.py, line 11\<close>
  | Sanity_kx     \<comment> \<open>hasegawa\_mima.py, line 61\<close>
  | Sanity_ky     \<comment> \<open>hasegawa\_mima.py, line 63\<close>
  | Finit_shape   \<comment> \<open>hole\_clump.py, line 46\<close>

datatype error = AssertionError assert_site | ValueError | IndexError

record 'a ndarray =
  shape :: "nat list"
  data :: "'a list"

text \<open>\<^verbatim>\<open>a.reshape(shp)\<close>: the entries stay, the sizes must agree.\<close>

definition reshape :: "'a list \<Rightarrow> nat list \<Rightarrow> error + 'a ndarray" where
  "reshape xs shp =
     (if prod_list shp = length xs then Inr \<lparr>shape = shp, data = xs\<rparr> else Inl ValueError)"

text \<open>The rows of a two-dimensional array.\<close>

definition rows_of :: "'a ndarray \<Rightarrow> 'a list list" where
  "rows_of a =
     (let c = shape a ! 1 in map (\<lambda>i. take c (drop (i * c) (data a))) [0..<shape a ! 0])"

text \<open>Python slices of a list: \<^verbatim>\<open>xs[2:]\<close>, \<^verbatim>\<open>xs[:-2]\<close> and \<^verbatim>\<open>xs[1:-1]\<close>.\<close>

definition from2 :: "'a list \<Rightarrow> 'a list" where
  "from2 xs = drop 2 xs"

definition upto_m2 :: "'a list \<Rightarrow> 'a list" where
  "upto_m2 xs = take (length xs - 2) xs"

definition inner :: "'a list \<Rightarrow> 'a list" where
  "inner xs = drop 1 (take (length xs - 1) xs)"

text \<open>
  \<^verbatim>\<open>np.pad(f, [(1, 1), (0, 0)], 'wrap')\<close>: one ghost row on each side, the last row
  before the first and the first after the last.  numpy refuses to extend an empty axis
  in this mode.
\<close>

definition pad_wrap_x :: "'a list list \<Rightarrow> error + 'a list list" where
  "pad_wrap_x rs = (if rs = [] then Inl ValueError else Inr (last rs # rs @ [hd rs]))"

text \<open>\<^verbatim>\<open>np.pad(g, [(0, 0), (1, 1)], 'constant', constant_values=0)\<close>.\<close>

definition pad_const_v :: "'a \<Rightarrow> 'a list list \<Rightarrow> 'a list list" where
  "pad_const_v c rs = map (\<lambda>r. c # r @ [c]) rs"

section \<open>The phase-space model (hole\_clump.py)\<close>

definition eps0 :: real where
  "eps0 = 885418782 / 10 ^ 20"

definition e_charge :: real where
  "e_charge = 160217662 / 10 ^ 27"

definition me :: real where
  "me = 910938356 / 10 ^ 39"

text \<open>
  The attributes of a \<^verbatim>\<open>HoleClump\<close> object.  The constructor sets
  \<^verbatim>\<open>x = linspace(-xmax, xmax, nx)\<close> and \<^verbatim>\<open>v = linspace(-vmax, vmax, nv)\<close>, so
  \<open>hc_x\<close> has \<open>hc_nx\<close> entries and \<open>hc_v\<close> has \<open>hc_nv\<close>.
\<close>

record HoleClump =
  hc_nx :: nat
  hc_nv :: nat
  hc_x :: "real list"
  hc_dx :: real
  hc_v :: "real list"
  hc_dv :: real
  hc_eps0 :: real
  hc_nu :: real
  hc_ne :: real
  hc_omega_p :: real

text \<open>
  \<^verbatim>\<open>_encode(f)\<close> with \<^verbatim>\<open>include_time=False\<close>: the slice \<^verbatim>\<open>f[:nx*nv]\<close> is
  reshaped (a slice that is too short is a ValueError of reshape), then the two scalar
  slots are read (an IndexError when \<^verbatim>\<open>f\<close> ends before them).
\<close>

definition encode :: "HoleClump \<Rightarrow> 'a list \<Rightarrow> error + ('a ndarray \<times> 'a \<times> 'a)" where
  "encode m f =
     (let n = hc_nx m * hc_nv m in
      case reshape (take n f) [hc_nx m, hc_nv m] of
        Inl err \<Rightarrow> Inl err
      | Inr F \<Rightarrow>
          if length f \<le> n then Inl IndexError
          else if length f \<le> n + 1 then Inl IndexError
          else Inr (F, f ! n, f ! (n + 1)))"

text \<open>The packing step of \<^verbatim>\<open>solve\<close>:
  \<^verbatim>\<open>np.concatenate([finit.ravel(), [vinit], [einit]])\<close>.\<close>

definition pack :: "'a ndarray \<Rightarrow> 'a \<Rightarrow> 'a \<Rightarrow> 'a list" where
  "pack finit vinit einit = data finit @ [vinit] @ [einit]"

text \<open>
  The derivative function \<^verbatim>\<open>dfdt(t, f)\<close> defined inside \<^verbatim>\<open>HoleClump.solve\<close>.
  \<^verbatim>\<open>self.v\<close> is broadcast along the rows, that is, entry \<open>j\<close> of a row meets \<open>v[j]\<close>.
\<close>

definition coef :: real where
  "coef = e_charge ^ 2 / me / eps0"

definition hc_dfdt :: "HoleClump \<Rightarrow> real \<Rightarrow> real list \<Rightarrow> error + real list" where
  "hc_dfdt m t f =
     (case encode m f of
        Inl err \<Rightarrow> Inl err
      | Inr (F, V, E) \<Rightarrow>
         (case pad_wrap_x (rows_of F) of
            Inl err \<Rightarrow> Inl err
          | Inr fw \<Rightarrow>
              let f_pad = pad_const_v 0 fw;
                  dfdx = map2 (map2 (\<lambda>a b. (a - b) / (2 * hc_dx m)))
                           (map inner (from2 f_pad)) (map inner (upto_m2 f_pad));
                  dfdv = map2 (map2 (\<lambda>a b. (a - b) / (2 * hc_dv m)))
                           (map from2 (inner f_pad)) (map upto_m2 (inner f_pad));
                  dfdt = map2 (\<lambda>rx rv. map2 (+) (map2 (\<lambda>vj d. - vj * d) (hc_v m) rx)
                                                     (map (\<lambda>d. E * d) rv)) dfdx dfdv;
                  dvdt = - E - hc_nu m * V;
                  dEdt = coef * (hc_ne m * V
                           + sum_list (concat (map (\<lambda>r. map2 (*) r (hc_v m)) (rows_of F)))
                             * hc_dv m)
              in Inr (concat dfdt @ [dvdt] @ [dEdt])))"

text \<open>
  The record the integrator returns (scipy's \<^verbatim>\<open>OptimizeResult\<close>): the time points,
  the solution matrix (state dimension by number of time points) and the three fields
  that report how the integration ended.
\<close>

record 'a ode_result =
  res_t :: "real list"
  res_y :: "'a ndarray"
  res_status :: int
  res_message :: string
  res_success :: bool

text \<open>After \<^verbatim>\<open>HoleClump.solve\<close> the record also has the keys \<^verbatim>\<open>f\<close>, \<^verbatim>\<open>V\<close>,
  \<^verbatim>\<open>E\<close>.\<close>

record hc_result = "real ode_result" +
  res_f :: "real ndarray"
  res_V :: "real list"
  res_E :: "real list"

text \<open>
  \<^verbatim>\<open>a.reshape(nx, nv, -1)\<close>: numpy infers the last size, and refuses when the known
  sizes multiply to zero or do not divide the number of entries.
\<close>

definition reshape_infer :: "'a list \<Rightarrow> nat \<Rightarrow> nat \<Rightarrow> error + 'a ndarray" where
  "reshape_infer xs a b =
     (if a * b = 0 \<or> length xs mod (a * b) \<noteq> 0 then Inl ValueError
      else Inr \<lparr>shape = [a, b, length xs div (a * b)], data = xs\<rparr>)"

text \<open>
  \<^verbatim>\<open>_encode(f, include_time=True)\<close> on the solution matrix: the first \<^verbatim>\<open>nx*nv\<close>
  rows are reshaped, rows \<^verbatim>\<open>nx*nv\<close> and \<^verbatim>\<open>nx*nv + 1\<close> are the two time series.
\<close>

definition encode_time ::
  "HoleClump \<Rightarrow> 'a ndarray \<Rightarrow> error + ('a ndarray \<times> 'a list \<times> 'a list)" where
  "encode_time m y =
     (let n = hc_nx m * hc_nv m; r = shape y ! 0; T = shape y ! 1 in
      case reshape_infer (take (min n r * T) (data y)) (hc_nx m) (hc_nv m) of
        Inl err \<Rightarrow> Inl err
      | Inr F \<Rightarrow>
          if r \<le> n then Inl IndexError
          else if r \<le> n + 1 then Inl IndexError
          else Inr (F, take T (drop (n * T) (data y)), take T (drop ((n + 1) * T) (data y))))"

text \<open>
  \<^verbatim>\<open>HoleClump.solve\<close>.  The integrator \<^verbatim>\<open>integrate.solve_ivp\<close> is a parameter: it
  gets the derivative function, the time span, the packed state and the caller's
  options, and returns a result record or raises.
\<close>

definition hc_solve ::
  "HoleClump \<Rightarrow>
   ((real \<Rightarrow> real list \<Rightarrow> error + real list) \<Rightarrow> real \<times> real \<Rightarrow> real list \<Rightarrow> 'k
      \<Rightarrow> error + real ode_result) \<Rightarrow>
   real \<times> real \<Rightarrow> real ndarray \<Rightarrow> real \<Rightarrow> real \<Rightarrow> 'k \<Rightarrow> error + hc_result" where
  "hc_solve m solve_ivp t_span finit vinit einit kwargs =
     (if shape finit \<noteq> [hc_nx m, hc_nv m] then Inl (AssertionError Finit_shape)
      else
        case solve_ivp (hc_dfdt m) t_span (pack finit vinit einit) kwargs of
          Inl err \<Rightarrow> Inl err
        | Inr result \<Rightarrow>
           (case encode_time m (res_y result) of
              Inl err \<Rightarrow> Inl err
            | Inr (F, V, E) \<Rightarrow>
                Inr (ode_result.extend result
                       (hc_result.fields F V E))))"

section \<open>Labelled datasets (the arguments of xr.Dataset)\<close>

text \<open>
  \<^verbatim>\<open>xr.Dataset(data_vars, coords=..., attrs=...)\<close> is called with three dictionaries;
  the dataset is modelled as these three, in the order the source writes their keys.
  A data variable is an array with the names of its dimensions, a vector with the name
  of its one dimension, or a plain value without dimensions.  The checks xarray itself
  runs on the sizes are not part of the source and are left out.
\<close>

datatype 'a variable =
    Array "string list" "'a ndarray"
  | Vector string "'a list"
  | IntVal int
  | StrVal string
  | BoolVal bool

record 'a dataset =
  data_vars :: "(string \<times> 'a variable) list"
  coords :: "(string \<times> real list) list"
  attrs :: "(string \<times> 'a variable) list"

text \<open>
  \<^verbatim>\<open>HoleClump.to_xarray(result)\<close>.  The function returns the dataset; the model also
  returns the result record as the call leaves it.
\<close>

definition hc_to_xarray :: "HoleClump \<Rightarrow> hc_result \<Rightarrow> real dataset \<times> hc_result" where
  "hc_to_xarray m result =
     (\<lparr>data_vars =
         [(''F'', Array [''x'', ''v'', ''time''] (res_f result)),
          (''V'', Vector ''time'' (res_V result)),
          (''E'', Vector ''time'' (res_E result)),
          (''status'', IntVal (res_status result)),
          (''message'', StrVal (res_message result)),
          (''success'', BoolVal (res_success result))],
       coords = [(''x'', hc_x m), (''v'', hc_v m), (''time'', res_t result)],
       attrs = []\<rparr>,
      result)"

section \<open>The spectral model (hasegawa\_mima.py)\<close>

text \<open>
  \<^verbatim>\<open>np.linspace(start, stop, num)\<close>: \<open>num\<close> evenly spaced values from \<open>start\<close> to
  \<open>stop\<close>, both included; the single value \<open>start\<close> when \<open>num = 1\<close>.  These are the
  exact values; numpy returns each of them rounded to a double.
\<close>

definition linspace :: "real \<Rightarrow> real \<Rightarrow> nat \<Rightarrow> real list" where
  "linspace start stop num =
     (if num = 1 then [start]
      else map (\<lambda>i. start + real i * ((stop - start) / real (num - 1))) [0..<num])"

text \<open>
  The attributes of a \<^verbatim>\<open>HasegawaMimaFourier\<close> object; \<open>kgrid\<close> is the attribute
  \<^verbatim>\<open>k\<close>.  The two- and three-dimensional arrays are only ever indexed, and are nested
  lists: \<open>mat m ! ix ! iy ! j\<close> is \<^verbatim>\<open>mat[ix, iy, j]\<close>.
\<close>

record HasegawaMimaFourier =
  kx :: "real list"
  ky :: "real list"
  kgrid :: "real list list list"
  k2 :: "real list list"
  mat :: "real list list list"
  index_px :: "int list list list"
  index_py :: "int list list list"
  index_qx :: "int list list list"
  index_qy :: "int list list list"

text \<open>
  \<^verbatim>\<open>np.stack(np.meshgrid(ky, kx), axis=-1)\<close>: meshgrid returns two arrays of
  \<open>len(kx)\<close> rows and \<open>len(ky)\<close> columns, the first repeating \<open>ky\<close> in every row, the
  second repeating \<open>kx[i]\<close> along row \<open>i\<close>; stack pairs their entries.
\<close>

definition meshgrid :: "'a list \<Rightarrow> 'a list \<Rightarrow> 'a list list \<times> 'a list list" where
  "meshgrid a b = (map (\<lambda>_. a) b, map (\<lambda>y. map (\<lambda>_. y) a) b)"

definition stack_last :: "'a list list \<times> 'a list list \<Rightarrow> 'a list list list" where
  "stack_last g = map2 (map2 (\<lambda>u w. [u, w])) (fst g) (snd g)"

text \<open>\<^verbatim>\<open>np.zeros((a, b, c))\<close>.\<close>

definition zeros3 :: "nat \<Rightarrow> nat \<Rightarrow> nat \<Rightarrow> 'a::zero list list list" where
  "zeros3 a b c = replicate a (replicate b (replicate c 0))"

text \<open>
  The partner indices of one pass of the loop:
  \<^verbatim>\<open>np.broadcast_arrays(np.arange(nx)[:, np.newaxis], np.arange(ny))\<close>, both ravelled,
  and \<^verbatim>\<open>j = jx * ny + jy\<close>.
\<close>

definition jx_arr :: "nat \<Rightarrow> nat \<Rightarrow> int list" where
  "jx_arr nx ny = concat (map (\<lambda>a. replicate ny (int a)) [0..<nx])"

definition jy_arr :: "nat \<Rightarrow> nat \<Rightarrow> int list" where
  "jy_arr nx ny = concat (replicate nx (map int [0..<ny]))"

definition j_arr :: "nat \<Rightarrow> nat \<Rightarrow> int list" where
  "j_arr nx ny = map2 (\<lambda>a b. a * int ny + b) (jx_arr nx ny) (jy_arr nx ny)"

text \<open>
  \<^verbatim>\<open>A[ix, iy, j] = vals\<close> with an index array \<open>j\<close>: the entries of \<open>vals\<close> are written
  one by one at the positions \<open>j\<close> names.  (Every index the constructor uses here is in
  range; a write out of range changes nothing in the model.)
\<close>

definition scatter :: "'a list \<Rightarrow> int list \<Rightarrow> 'a list \<Rightarrow> 'a list" where
  "scatter row idx vals = fold (\<lambda>(i, w) r. r[nat i := w]) (zip idx vals) row"

definition assign3 ::
  "'a list list list \<Rightarrow> nat \<Rightarrow> nat \<Rightarrow> int list \<Rightarrow> 'a list \<Rightarrow> 'a list list list" where
  "assign3 A ix iy idx vals = A[ix := (A ! ix)[iy := scatter (A ! ix ! iy) idx vals]]"

text \<open>\<^verbatim>\<open>np.where(cond, xs, 0)\<close> and \<^verbatim>\<open>np.allclose(xs, 0)\<close> (with numpy's default
  tolerances \<open>rtol = 1e-5\<close> and \<open>atol = 1e-8\<close>).\<close>

definition where0 :: "bool list \<Rightarrow> 'a::zero list \<Rightarrow> 'a list" where
  "where0 cond xs = map2 (\<lambda>c x. if c then x else 0) cond xs"

definition allclose0 :: "real list \<Rightarrow> bool" where
  "allclose0 xs = list_all (\<lambda>a. \<bar>a - 0\<bar> \<le> 1 / 10 ^ 8 + 1 / 10 ^ 5 * \<bar>0\<bar>) xs"

text \<open>
  The arrays one pass \<open>(ix, iy)\<close> of the double loop of \<^verbatim>\<open>_setup\<close> computes, named as
  in the source (\<open>lxw\<close>, \<open>lyw\<close> are \<open>lx\<close>, \<open>ly\<close> after their reassignment by
  \<^verbatim>\<open>np.where\<close>).  The array \<^verbatim>\<open>l\<close> of the source is never read and is left out.
  The products and sums (\<open>mat_vals\<close>, \<open>kxsum\<close>, \<open>kysum\<close>) are exact here and rounded
  to doubles in the program.
\<close>

definition half :: "nat \<Rightarrow> int" where
  "half n = (int n - 1) div 2"

definition lx_arr :: "nat \<Rightarrow> nat \<Rightarrow> nat \<Rightarrow> int list" where
  "lx_arr nx ny ix = map (\<lambda>a. 3 * half nx - int ix - a) (jx_arr nx ny)"

definition ly_arr :: "nat \<Rightarrow> nat \<Rightarrow> nat \<Rightarrow> int list" where
  "ly_arr nx ny iy = map (\<lambda>b. 3 * half ny - int iy - b) (jy_arr nx ny)"

definition valid_x :: "nat \<Rightarrow> nat \<Rightarrow> nat \<Rightarrow> bool list" where
  "valid_x nx ny ix = map (\<lambda>l. 0 \<le> l \<and> l < int nx) (lx_arr nx ny ix)"

definition valid_y :: "nat \<Rightarrow> nat \<Rightarrow> nat \<Rightarrow> bool list" where
  "valid_y nx ny iy = map (\<lambda>l. 0 \<le> l \<and> l < int ny) (ly_arr nx ny iy)"

definition lxw :: "nat \<Rightarrow> nat \<Rightarrow> nat \<Rightarrow> int list" where
  "lxw nx ny ix = where0 (valid_x nx ny ix) (lx_arr nx ny ix)"

definition lyw :: "nat \<Rightarrow> nat \<Rightarrow> nat \<Rightarrow> int list" where
  "lyw nx ny iy = where0 (valid_y nx ny iy) (ly_arr nx ny iy)"

definition valid_xy :: "nat \<Rightarrow> nat \<Rightarrow> nat \<Rightarrow> nat \<Rightarrow> bool list" where
  "valid_xy nx ny ix iy = map2 (\<and>) (valid_x nx ny ix) (valid_y nx ny iy)"

definition take_at :: "'a list \<Rightarrow> int list \<Rightarrow> 'a list" where
  "take_at xs idx = map (\<lambda>i. xs ! nat i) idx"

definition mat_vals :: "real list \<Rightarrow> real list \<Rightarrow> real list list \<Rightarrow> nat \<Rightarrow> nat \<Rightarrow> real list" where
  "mat_vals kxs kys k2s ix iy =
     (let nx = length kxs; ny = length kys;
          qx = take_at kxs (lxw nx ny ix);
          qy = take_at kys (lyw nx ny iy);
          q2 = map2 (\<lambda>a b. k2s ! nat a ! nat b) (lxw nx ny ix) (lyw nx ny iy)
      in where0 (valid_xy nx ny ix iy)
           (map2 (*)
              (map2 (-) (map2 (*) (take_at kxs (jx_arr nx ny)) qy)
                        (map2 (*) (take_at kys (jy_arr nx ny)) qx))
              q2))"

definition kxsum :: "real list \<Rightarrow> real list \<Rightarrow> nat \<Rightarrow> nat \<Rightarrow> real list" where
  "kxsum kxs kys ix iy =
     (let nx = length kxs; ny = length kys
      in where0 (valid_xy nx ny ix iy)
           (map2 (+) (map (\<lambda>a. kxs ! ix + a) (take_at kxs (jx_arr nx ny)))
                     (take_at kxs (lxw nx ny ix))))"

definition kysum :: "real list \<Rightarrow> real list \<Rightarrow> nat \<Rightarrow> nat \<Rightarrow> real list" where
  "kysum kxs kys ix iy =
     (let nx = length kxs; ny = length kys
      in where0 (valid_xy nx ny ix iy)
           (map2 (+) (map (\<lambda>a. kys ! iy + a) (take_at kys (jy_arr nx ny)))
                     (take_at kys (lyw nx ny iy))))"

text \<open>
  The body of the double loop: the five assignments of one pass \<open>(ix, iy)\<close>, then the
  two sanity assertions.
\<close>

definition setup_write :: "nat \<Rightarrow> nat \<Rightarrow> HasegawaMimaFourier \<Rightarrow> HasegawaMimaFourier" where
  "setup_write ix iy self =
     (let nx = length (kx self); ny = length (ky self); j = j_arr nx ny in
      self
        \<lparr>index_px := assign3 (index_px self) ix iy j (jx_arr nx ny),
         index_py := assign3 (index_py self) ix iy j (jy_arr nx ny),
         index_qx := assign3 (index_qx self) ix iy j (where0 (valid_x nx ny ix) (lxw nx ny ix)),
         index_qy := assign3 (index_qy self) ix iy j (where0 (valid_y nx ny iy) (lyw nx ny iy)),
         mat := assign3 (mat self) ix iy j (mat_vals (kx self) (ky self) (k2 self) ix iy)\<rparr>)"

definition setup_body ::
  "nat \<Rightarrow> nat \<Rightarrow> HasegawaMimaFourier \<Rightarrow> error + HasegawaMimaFourier" where
  "setup_body ix iy self =
     (let self' = setup_write ix iy self in
      if \<not> allclose0 (kxsum (kx self') (ky self') ix iy) then Inl (AssertionError Sanity_kx)
      else if \<not> allclose0 (kysum (kx self') (ky self') ix iy) then Inl (AssertionError Sanity_ky)
      else Inr self')"

text \<open>A \<^verbatim>\<open>for\<close> loop whose body may raise.\<close>

fun for_each :: "('i \<Rightarrow> 's \<Rightarrow> error + 's) \<Rightarrow> 'i list \<Rightarrow> 's \<Rightarrow> error + 's" where
  "for_each body [] s = Inr s"
| "for_each body (i # rest) s =
     (case body i s of Inl err \<Rightarrow> Inl err | Inr s' \<Rightarrow> for_each body rest s')"

definition hm_setup :: "real list \<Rightarrow> real list \<Rightarrow> error + HasegawaMimaFourier" where
  "hm_setup kxs kys =
     (let k = stack_last (meshgrid kys kxs);
          ksq = map (map (\<lambda>p. sum_list (map (\<lambda>c. c ^ 2) p))) k;
          nx = length kxs; ny = length kys;
          self = \<lparr>kx = kxs, ky = kys, kgrid = k, k2 = ksq,
                  mat = zeros3 nx ny (nx * ny),
                  index_px = zeros3 nx ny (nx * ny),
                  index_py = zeros3 nx ny (nx * ny),
                  index_qx = zeros3 nx ny (nx * ny),
                  index_qy = zeros3 nx ny (nx * ny)\<rparr>
      in for_each (\<lambda>ix. for_each (\<lambda>iy. setup_body ix iy) [0..<ny]) [0..<nx] self)"

text \<open>\<^verbatim>\<open>HasegawaMimaFourier(kmax, nx, ny)\<close>.\<close>

definition hm_init :: "real \<Rightarrow> nat \<Rightarrow> nat \<Rightarrow> error + HasegawaMimaFourier" where
  "hm_init kmax nx ny =
     (if nx mod 2 \<noteq> 1 then Inl (AssertionError Odd_nx)
      else if ny mod 2 \<noteq> 1 then Inl (AssertionError Odd_ny)
      else hm_setup (linspace (- kmax) kmax nx) (linspace (- kmax) kmax ny))"

text \<open>
  Reading an array at an integer index, as Python does: a negative index counts from the
  end, an index outside \<open>[-n, n)\<close> raises IndexError.
\<close>

definition index_ok :: "nat \<Rightarrow> int \<Rightarrow> bool" where
  "index_ok n i = (- int n \<le> i \<and> i < int n)"

definition norm_index :: "nat \<Rightarrow> int \<Rightarrow> nat" where
  "norm_index n i = nat (if i < 0 then i + int n else i)"

text \<open>\<^verbatim>\<open>a[X, Y]\<close> for a two-dimensional array \<open>a\<close> of \<open>r\<close> rows and \<open>c\<close> columns and two
  three-dimensional index arrays of one shape.\<close>

definition gather2 ::
  "nat \<Rightarrow> nat \<Rightarrow> 'a list list \<Rightarrow> int list list list \<Rightarrow> int list list list
     \<Rightarrow> error + 'a list list list" where
  "gather2 r c a X Y =
     (if list_all (list_all (list_all (index_ok r))) X
         \<and> list_all (list_all (list_all (index_ok c))) Y
      then Inr (map2 (map2 (map2 (\<lambda>p q. a ! norm_index r p ! norm_index c q))) X Y)
      else Inl IndexError)"

text \<open>
  The derivative function \<^verbatim>\<open>dfdt(t, phi)\<close> defined inside
  \<^verbatim>\<open>HasegawaMimaFourier.solve\<close>.  \<^verbatim>\<open>self.shape\<close> is the shape of \<^verbatim>\<open>k2\<close>, which has
  one row for every entry of \<^verbatim>\<open>kx\<close> and one column for every entry of \<^verbatim>\<open>ky\<close>.
\<close>

definition hm_shape :: "HasegawaMimaFourier \<Rightarrow> nat \<times> nat" where
  "hm_shape self = (length (kx self), length (ky self))"

definition hm_dfdt :: "HasegawaMimaFourier \<Rightarrow> real \<Rightarrow> complex list \<Rightarrow> error + complex list" where
  "hm_dfdt self t phi =
     (let nx = fst (hm_shape self); ny = snd (hm_shape self) in
      case reshape phi [nx, ny] of
        Inl err \<Rightarrow> Inl err
      | Inr phi2 \<Rightarrow>
          let phic = map (map cnj) (rows_of phi2) in
          case gather2 nx ny phic (index_px self) (index_py self) of
            Inl err \<Rightarrow> Inl err
          | Inr cp \<Rightarrow>
             (case gather2 nx ny phic (index_qx self) (index_qy self) of
                Inl err \<Rightarrow> Inl err
              | Inr cq \<Rightarrow>
                  let lin = map (\<lambda>row. map2 (\<lambda>w p. - \<i> * complex_of_real w * p) (ky self) row)
                              (rows_of phi2);
                      prod3 = map2 (map2 (map2 (*)))
                                (map2 (map2 (map2 (\<lambda>c p. complex_of_real c * p))) (mat self) cp)
                                cq;
                      dphi_dt = map2 (map2 (+)) lin (map (map sum_list) prod3)
                  in Inr (concat (map2 (map2 (\<lambda>d w. d / complex_of_real (1 + w)))
                                    dphi_dt (k2 self)))))"

text \<open>
  \<^verbatim>\<open>HasegawaMimaFourier.solve\<close>: the integrator is a parameter, and the solution
  matrix it returns is reshaped to \<open>(nx, ny, len(t))\<close> in the result record.
\<close>

definition hm_solve ::
  "HasegawaMimaFourier \<Rightarrow>
   ((real \<Rightarrow> complex list \<Rightarrow> error + complex list) \<Rightarrow> real \<times> real \<Rightarrow> complex list \<Rightarrow> 'k
      \<Rightarrow> error + complex ode_result) \<Rightarrow>
   real \<times> real \<Rightarrow> complex ndarray \<Rightarrow> 'k \<Rightarrow> error + complex ode_result" where
  "hm_solve self solve_ivp t_span phiinit kwargs =
     (case solve_ivp (hm_dfdt self) t_span (data phiinit) kwargs of
        Inl err \<Rightarrow> Inl err
      | Inr result \<Rightarrow>
         (case reshape (data (res_y result))
                 [fst (hm_shape self), snd (hm_shape self), length (res_t result)] of
            Inl err \<Rightarrow> Inl err
          | Inr y \<Rightarrow> Inr (result\<lparr>res_y := y\<rparr>)))"

text \<open>\<^verbatim>\<open>HasegawaMimaFourier.to_xarray(result)\<close>, with the result record as the call
  leaves it.\<close>

definition hm_to_xarray ::
  "HasegawaMimaFourier \<Rightarrow> complex ode_result \<Rightarrow> complex dataset \<times> complex ode_result" where
  "hm_to_xarray self result =
     (\<lparr>data_vars =
         [(''phi'', Array [''kx'', ''ky'', ''time''] (res_y result)),
          (''status'', IntVal (res_status result)),
          (''message'', StrVal (res_message result)),
          (''success'', BoolVal (res_success result))],
       coords = [(''kx'', kx self), (''ky'', ky self), (''time'', res_t result)],
       attrs = []\<rparr>,
      result)"

section \<open>Notions of the specification and example inputs\<close>

text \<open>
  The padded array as the specification words it: one ghost cell on each side of both
  axes, the ghost rows wrapping around periodically along \<open>x\<close>, the ghost columns
  holding zero along \<open>v\<close>.  Entry \<open>(a, b)\<close> of the padded array, for \<open>a \<le> nx + 1\<close> and
  \<open>b \<le> nv + 1\<close>, over the row-major entries \<open>xs\<close> of \<open>F\<close>.
\<close>

definition f_pad_spec :: "nat \<Rightarrow> nat \<Rightarrow> real list \<Rightarrow> nat \<Rightarrow> nat \<Rightarrow> real" where
  "f_pad_spec nx nv xs a b =
     (if b = 0 \<or> b = nv + 1 then 0 else xs ! (((a + nx - 1) mod nx) * nv + (b - 1)))"

text \<open>\<^verbatim>\<open>HoleClump(xmax=1, vmax=1, nx=2, nv=3, nu=1, ne=1)\<close> and
  \<^verbatim>\<open>HoleClump(xmax=1, vmax=1, nx=3, nv=3, nu=1, ne=1)\<close>.\<close>

definition hc_small :: HoleClump where
  "hc_small = \<lparr>hc_nx = 2, hc_nv = 3, hc_x = [-1, 1], hc_dx = 2, hc_v = [-1, 0, 1], hc_dv = 1,
     hc_eps0 = eps0, hc_nu = 1, hc_ne = 1,
     hc_omega_p = sqrt (1 * e_charge ^ 2 / (me * eps0))\<rparr>"

definition hc_grid3 :: HoleClump where
  "hc_grid3 = \<lparr>hc_nx = 3, hc_nv = 3, hc_x = [-1, 0, 1], hc_dx = 1, hc_v = [-1, 0, 1], hc_dv = 1,
     hc_eps0 = eps0, hc_nu = 1, hc_ne = 1,
     hc_omega_p = sqrt (1 * e_charge ^ 2 / (me * eps0))\<rparr>"

definition F33 :: "real ndarray" where
  "F33 = \<lparr>shape = [3, 3], data = [1, 2, 3, 4, 5, 6, 7, 8, 10]\<rparr>"

text \<open>
  The field equation as the specification states it: the sum of \<open>F \<cdot> v\<close> over the
  spatial axis only, which leaves one value for every velocity index \<open>j\<close>.
\<close>

definition sum_over_x :: "nat \<Rightarrow> nat \<Rightarrow> real list \<Rightarrow> real list \<Rightarrow> nat \<Rightarrow> real" where
  "sum_over_x nx nv xs v j = (\<Sum>i<nx. xs ! (i * nv + j) * v ! j)"

definition dEdt_spec :: "HoleClump \<Rightarrow> real ndarray \<Rightarrow> real \<Rightarrow> nat \<Rightarrow> real" where
  "dEdt_spec m F V j =
     e_charge ^ 2 / (me * eps0)
       * (hc_ne m * V + sum_over_x (hc_nx m) (hc_nv m) (data F) (hc_v m) j * hc_dv m)"

text \<open>\<^verbatim>\<open>HoleClump(xmax=1, vmax=1, nx=2, nv=2, nu=1, ne=1)\<close> and a distribution on its
  grid.\<close>

definition hc_grid2 :: HoleClump where
  "hc_grid2 = \<lparr>hc_nx = 2, hc_nv = 2, hc_x = [-1, 1], hc_dx = 2, hc_v = [-1, 1], hc_dv = 2,
     hc_eps0 = eps0, hc_nu = 1, hc_ne = 1,
     hc_omega_p = sqrt (1 * e_charge ^ 2 / (me * eps0))\<rparr>"

definition F22 :: "real ndarray" where
  "F22 = \<lparr>shape = [2, 2], data = [1, 2, 3, 4]\<rparr>"

text \<open>A result record as \<^verbatim>\<open>solve\<close> returns it on the grid of \<open>hc_small\<close>, with one
  time point.\<close>

definition res_small :: hc_result where
  "res_small = \<lparr>res_t = [0], res_y = \<lparr>shape = [8, 1], data = [1, 2, 3, 4, 5, 6, 7, 8]\<rparr>,
     res_status = 0, res_message = ''done'', res_success = True,
     res_f = \<lparr>shape = [2, 3, 1], data = [1, 2, 3, 4, 5, 6]\<rparr>, res_V = [7], res_E = [8]\<rparr>"

text \<open>What one pass checks, and which assertion fails when it does not hold.\<close>

definition pass_ok :: "real list \<Rightarrow> real list \<Rightarrow> nat \<Rightarrow> nat \<Rightarrow> bool" where
  "pass_ok kxs kys ix iy =
     (allclose0 (kxsum kxs kys ix iy) \<and> allclose0 (kysum kxs kys ix iy))"

definition pass_err :: "real list \<Rightarrow> real list \<Rightarrow> nat \<Rightarrow> nat \<Rightarrow> error" where
  "pass_err kxs kys ix iy =
     (if \<not> allclose0 (kxsum kxs kys ix iy) then AssertionError Sanity_kx
      else AssertionError Sanity_ky)"

text \<open>The grid of squared magnitudes \<^verbatim>\<open>_setup\<close> computes first.\<close>

definition k2_grid :: "real list \<Rightarrow> real list \<Rightarrow> real list list" where
  "k2_grid kxs kys =
     map (map (\<lambda>p. sum_list (map (\<lambda>c. c ^ 2) p))) (stack_last (meshgrid kys kxs))"

text \<open>
  The triad lookup rule as the specification states it: on an axis of \<open>n\<close> points, target
  index \<open>i\<close> and partner index \<open>j\<close> have the third index \<open>3 half - i - j\<close> with
  \<open>half = (n - 1) / 2\<close>; the triad is valid on this axis when the third index lies in
  \<open>[0, n)\<close>.
\<close>

definition third :: "nat \<Rightarrow> nat \<Rightarrow> nat \<Rightarrow> int" where
  "third n i j = 3 * ((int n - 1) div 2) - int i - int j"

definition on_grid :: "nat \<Rightarrow> int \<Rightarrow> bool" where
  "on_grid n l = (0 \<le> l \<and> l < int n)"

text \<open>An array of shape \<open>(a, b, c)\<close> as nested lists.\<close>

definition shape3 :: "nat \<Rightarrow> nat \<Rightarrow> nat \<Rightarrow> 'a list list list \<Rightarrow> bool" where
  "shape3 a b c X =
     (length X = a \<and> (\<forall>i<a. length (X ! i) = b \<and> (\<forall>j<b. length (X ! i ! j) = c)))"

section \<open>Properties of the phase-space model\<close>

subsection \<open>Packing and decoding the state\<close>

lemma encode_pack:
  assumes "shape F = [hc_nx m, hc_nv m]" and "length (data F) = hc_nx m * hc_nv m"
  shows "encode m (pack F V E) = Inr (F, V, E)"
proof -
  have F: "\<lparr>shape = [hc_nx m, hc_nv m], data = data F\<rparr> = F"
    using assms(1) by simp
  show ?thesis
    using assms(2) F by (simp add: encode_def pack_def reshape_def nth_append)
qed

text \<open>
  C5.  For an array \<open>F\<close> of shape \<open>(nx, nv)\<close> (so with \<open>nx * nv\<close> entries) and any \<open>V\<close>
  and \<open>E\<close>, of any entry type: decoding the vector that \<^verbatim>\<open>solve\<close> packs gives back
  exactly \<open>F\<close>, \<open>V\<close> and \<open>E\<close>; the packed vector has \<open>nx * nv + 2\<close> entries, and its last
  two are \<open>V\<close>, then \<open>E\<close>.
\<close>

theorem encode_pack_roundtrip:
  assumes "shape F = [hc_nx m, hc_nv m]" and "length (data F) = hc_nx m * hc_nv m"
  shows "encode m (pack F V E) = Inr (F, V, E)
       \<and> length (pack F V E) = hc_nx m * hc_nv m + 2
       \<and> pack F V E ! (hc_nx m * hc_nv m) = V
       \<and> pack F V E ! (hc_nx m * hc_nv m + 1) = E"
  using assms encode_pack [OF assms, of V E] by (simp add: pack_def nth_append)

theorem encode_pack_roundtrip_witness:
  "encode hc_small (pack \<lparr>shape = [2, 3], data = [1, 2, 3, 4, 5, 6 :: int]\<rparr> 7 8)
     = Inr (\<lparr>shape = [2, 3], data = [1, 2, 3, 4, 5, 6]\<rparr>, 7, 8)
   \<and> length (pack \<lparr>shape = [2, 3], data = [1, 2, 3, 4, 5, 6 :: int]\<rparr> 7 8) = 8"
  using encode_pack_roundtrip [of "\<lparr>shape = [2, 3], data = [1, 2, 3, 4, 5, 6 :: int]\<rparr>" hc_small 7 8]
  by (simp add: hc_small_def)

text \<open>
  C7.  When the shape of \<open>finit\<close> is not \<open>(nx, nv)\<close>, \<^verbatim>\<open>solve\<close> fails at its own
  assertion, whatever the integrator is and would do: the state is not packed and the
  integrator is not consulted.
\<close>

theorem solve_shape_assert:
  assumes "shape finit \<noteq> [hc_nx m, hc_nv m]"
  shows "hc_solve m solve_ivp t_span finit vinit einit kwargs = Inl (AssertionError Finit_shape)"
  using assms by (simp add: hc_solve_def)

theorem solve_shape_assert_witness:
  "hc_solve hc_small (\<lambda>f ts y0 (kw :: unit). Inl ValueError) (0, 1)
     \<lparr>shape = [3, 2], data = [1, 2, 3, 4, 5, 6]\<rparr> 7 8 () = Inl (AssertionError Finit_shape)"
  using solve_shape_assert [of "\<lparr>shape = [3, 2], data = [1, 2, 3, 4, 5, 6]\<rparr>" hc_small]
  by (simp add: hc_small_def)

subsection \<open>Rows, slices and ghost cells\<close>

lemma concat_uniform_length:
  "\<forall>row\<in>set rs. length row = c \<Longrightarrow> length (concat rs) = length rs * c"
  by (induction rs) auto

lemma concat_uniform_nth:
  "\<forall>row\<in>set rs. length row = c \<Longrightarrow> i < length rs \<Longrightarrow> j < c
     \<Longrightarrow> concat rs ! (i * c + j) = rs ! i ! j"
proof (induction rs arbitrary: i)
  case Nil
  then show ?case by simp
next
  case (Cons r rs)
  show ?case
  proof (cases i)
    case 0
    with Cons.prems show ?thesis by (simp add: nth_append)
  next
    case (Suc k)
    with Cons.prems have "concat rs ! (k * c + j) = rs ! k ! j"
      by (intro Cons.IH) auto
    with Suc Cons.prems show ?thesis by (simp add: nth_append)
  qed
qed

lemma rows_of_length: "shape F = [r, c] \<Longrightarrow> length (rows_of F) = r"
  by (simp add: rows_of_def)

lemma rows_of_nth:
  "shape F = [r, c] \<Longrightarrow> i < r \<Longrightarrow> rows_of F ! i = take c (drop (i * c) (data F))"
  by (simp add: rows_of_def)

lemma mult_bound: "i < r \<Longrightarrow> i * c + c \<le> r * (c::nat)"
proof -
  assume "i < r"
  then have "Suc i \<le> r" by simp
  then have "Suc i * c \<le> r * c" by (rule mult_le_mono1)
  then show ?thesis by (simp add: add.commute)
qed

lemma rows_of_row_length:
  assumes "shape F = [r, c]" "length (data F) = r * c" "i < r"
  shows "length (rows_of F ! i) = c"
  using assms mult_bound [of i r c] by (simp add: rows_of_nth)

lemma rows_of_entry:
  assumes "shape F = [r, c]" "length (data F) = r * c" "i < r" "j < c"
  shows "rows_of F ! i ! j = data F ! (i * c + j)"
  using assms mult_bound [of i r c] by (simp add: rows_of_nth)

lemma pad_wrap_nth:
  assumes "R \<noteq> []" "a < length R + 2"
  shows "(last R # R @ [hd R]) ! a = R ! ((a + length R - 1) mod length R)"
proof -
  let ?r = "length R"
  have r: "0 < ?r" using assms(1) by simp
  consider "a = 0" | "0 < a \<and> a \<le> ?r" | "a = ?r + 1" using assms(2) by linarith
  then show ?thesis
  proof cases
    case 1
    then show ?thesis using r assms(1) by (simp add: last_conv_nth)
  next
    case 2
    then have "a + ?r - 1 = (a - 1) + ?r" by simp
    then have "(a + ?r - 1) mod ?r = (a - 1) mod ?r" by (simp only: mod_add_self2)
    moreover have lt: "a - 1 < ?r" using 2 by linarith
    ultimately have "(a + ?r - 1) mod ?r = a - 1" by simp
    with 2 lt show ?thesis by (simp add: nth_Cons' nth_append)
  next
    case 3
    then have "(a + ?r - 1) mod ?r = 0" by simp
    with 3 assms(1) show ?thesis by (simp add: nth_append hd_conv_nth)
  qed
qed


lemma from2_length: "length (from2 xs) = length xs - 2"
  by (simp add: from2_def)

lemma upto_m2_length: "length (upto_m2 xs) = length xs - 2"
  by (simp add: upto_m2_def)

lemma inner_length: "length (inner xs) = length xs - 2"
  by (simp add: inner_def)

lemma from2_nth: "j + 2 < length xs \<Longrightarrow> from2 xs ! j = xs ! (j + 2)"
  by (simp add: from2_def add.commute)

lemma upto_m2_nth: "j + 2 < length xs \<Longrightarrow> upto_m2 xs ! j = xs ! j"
  by (simp add: upto_m2_def)

lemma inner_nth: "j + 2 < length xs \<Longrightarrow> inner xs ! j = xs ! (j + 1)"
  by (simp add: inner_def)

lemma pad_const_nth:
  "a < length rs \<Longrightarrow> length (rs ! a) = c \<Longrightarrow> b < c + 2
     \<Longrightarrow> pad_const_v z rs ! a ! b = (if b = 0 \<or> b = c + 1 then z else rs ! a ! (b - 1))"
  by (auto simp: pad_const_v_def nth_Cons' nth_append)

lemma pad_const_length: "length (pad_const_v z rs) = length rs"
  by (simp add: pad_const_v_def)

lemma pad_const_row_length:
  "a < length rs \<Longrightarrow> length (pad_const_v z rs ! a) = length (rs ! a) + 2"
  by (simp add: pad_const_v_def)

text \<open>The padded array of the source against the ghost-cell array of the specification.\<close>

lemma f_pad_entry:
  assumes shp: "shape F = [r, c]" and len: "length (data F) = r * c" and r: "0 < r"
    and a: "a < r + 2" and b: "b < c + 2"
  shows "pad_const_v 0 (last (rows_of F) # rows_of F @ [hd (rows_of F)]) ! a ! b
           = f_pad_spec r c (data F) a b"
proof -
  let ?R = "rows_of F"
  let ?W = "last ?R # ?R @ [hd ?R]"
  have lR: "length ?R = r" using shp by (rule rows_of_length)
  then have ne: "?R \<noteq> []" using r by auto
  let ?i = "(a + r - 1) mod r"
  have i: "?i < r" using r by simp
  have W: "?W ! a = ?R ! ?i"
    using pad_wrap_nth [OF ne, of a] a lR by simp
  have lW: "length (?W ! a) = c"
    using W rows_of_row_length [OF shp len i] by simp
  have "pad_const_v 0 ?W ! a ! b = (if b = 0 \<or> b = c + 1 then 0 else ?W ! a ! (b - 1))"
    using a lR lW b by (intro pad_const_nth) auto
  also have "\<dots> = f_pad_spec r c (data F) a b"
  proof (cases "b = 0 \<or> b = c + 1")
    case True
    then show ?thesis by (simp add: f_pad_spec_def)
  next
    case False
    then have "b - 1 < c" using b by linarith
    then have "?R ! ?i ! (b - 1) = data F ! (?i * c + (b - 1))"
      using rows_of_entry [OF shp len i] by simp
    with False W show ?thesis by (simp add: f_pad_spec_def)
  qed
  finally show ?thesis .
qed

lemma f_pad_row_length:
  assumes shp: "shape F = [r, c]" and len: "length (data F) = r * c" and r: "0 < r"
    and a: "a < r + 2"
  shows "length (pad_const_v 0 (last (rows_of F) # rows_of F @ [hd (rows_of F)]) ! a) = c + 2"
proof -
  let ?R = "rows_of F"
  let ?W = "last ?R # ?R @ [hd ?R]"
  have lR: "length ?R = r" using shp by (rule rows_of_length)
  then have ne: "?R \<noteq> []" using r by auto
  let ?i = "(a + r - 1) mod r"
  have i: "?i < r" using r by simp
  have W: "?W ! a = ?R ! ?i"
    using pad_wrap_nth [OF ne, of a] a lR by simp
  have lW: "length (?W ! a) = c"
    using W rows_of_row_length [OF shp len i] by simp
  have "a < length ?W" using a lR by simp
  then show ?thesis using lW by (simp only: pad_const_row_length)
qed

subsection \<open>The distribution part of the derivative\<close>

lemma stencil_rows:
  fixes fp :: "real list list" and gx gv :: "real \<Rightarrow> real \<Rightarrow> real" and E :: real
  assumes lf: "length fp = r + 2" and lr: "\<And>a. a < r + 2 \<Longrightarrow> length (fp ! a) = c + 2"
    and lv: "length v = c"
  defines "dfdx \<equiv> map2 (map2 gx) (map inner (from2 fp)) (map inner (upto_m2 fp))"
    and "dfdv \<equiv> map2 (map2 gv) (map from2 (inner fp)) (map upto_m2 (inner fp))"
  defines "dfdt \<equiv> map2 (\<lambda>rx rv. map2 (+) (map2 (\<lambda>vj d. - vj * d) v rx)
                                               (map (\<lambda>d. E * d) rv)) dfdx dfdv"
  shows "length dfdt = r"
    and "i < r \<Longrightarrow> length (dfdt ! i) = c"
    and "i < r \<Longrightarrow> j < c \<Longrightarrow>
           dfdt ! i ! j = - (v ! j) * gx (fp ! (i + 2) ! (j + 1)) (fp ! i ! (j + 1))
                          + E * gv (fp ! (i + 1) ! (j + 2)) (fp ! (i + 1) ! j)"
proof -
  have ldx: "length dfdx = r" and ldv: "length dfdv = r"
    using lf by (simp_all add: dfdx_def dfdv_def from2_length upto_m2_length inner_length)
  show "length dfdt = r" using ldx ldv by (simp add: dfdt_def)
  {
    assume i: "i < r"
    have f2: "from2 fp ! i = fp ! (i + 2)" and u2: "upto_m2 fp ! i = fp ! i"
      and i1: "inner fp ! i = fp ! (i + 1)"
      using i lf by (simp_all add: from2_nth upto_m2_nth inner_nth)
    have l0: "length (fp ! i) = c + 2" and l1: "length (fp ! (i + 1)) = c + 2"
      and l2: "length (fp ! (i + 2)) = c + 2"
      using i lr by simp_all
    have rx: "dfdx ! i = map2 gx (inner (fp ! (i + 2))) (inner (fp ! i))"
      using i lf f2 u2 by (simp add: dfdx_def from2_length upto_m2_length)
    have rv: "dfdv ! i = map2 gv (from2 (fp ! (i + 1))) (upto_m2 (fp ! (i + 1)))"
      using i lf i1 by (simp add: dfdv_def inner_length)
    have row: "dfdt ! i = map2 (+) (map2 (\<lambda>vj d. - vj * d) v (dfdx ! i))
                                   (map (\<lambda>d. E * d) (dfdv ! i))"
      using i ldx ldv by (simp add: dfdt_def)
    have lrx: "length (dfdx ! i) = c" using rx l0 l2 by (simp add: inner_length)
    have lrv: "length (dfdv ! i) = c" using rv l1 by (simp add: from2_length upto_m2_length)
    show "length (dfdt ! i) = c" using row lrx lrv lv by simp
    {
      assume j: "j < c"
      have ex: "dfdx ! i ! j = gx (fp ! (i + 2) ! (j + 1)) (fp ! i ! (j + 1))"
        using j l0 l2 by (simp add: rx inner_length inner_nth)
      have ev: "dfdv ! i ! j = gv (fp ! (i + 1) ! (j + 2)) (fp ! (i + 1) ! j)"
        using j l1 by (simp add: rv from2_length upto_m2_length from2_nth upto_m2_nth)
      show "dfdt ! i ! j = - (v ! j) * gx (fp ! (i + 2) ! (j + 1)) (fp ! i ! (j + 1))
                          + E * gv (fp ! (i + 1) ! (j + 2)) (fp ! (i + 1) ! j)"
        using j lrx lrv lv ex ev by (simp add: row)
    }
  }
qed

lemma hc_dfdt_pack:
  assumes shp: "shape F = [hc_nx m, hc_nv m]" and len: "length (data F) = hc_nx m * hc_nv m"
    and nx: "0 < hc_nx m"
  defines "fp \<equiv> pad_const_v 0 (last (rows_of F) # rows_of F @ [hd (rows_of F)])"
  shows "hc_dfdt m t (pack F V E) =
     Inr (concat
            (map2 (\<lambda>rx rv. map2 (+) (map2 (\<lambda>vj d. - vj * d) (hc_v m) rx) (map (\<lambda>d. E * d) rv))
               (map2 (map2 (\<lambda>a b. (a - b) / (2 * hc_dx m)))
                  (map inner (from2 fp)) (map inner (upto_m2 fp)))
               (map2 (map2 (\<lambda>a b. (a - b) / (2 * hc_dv m)))
                  (map from2 (inner fp)) (map upto_m2 (inner fp))))
          @ [- E - hc_nu m * V]
          @ [coef * (hc_ne m * V
               + sum_list (concat (map (\<lambda>r. map2 (*) r (hc_v m)) (rows_of F))) * hc_dv m)])"
proof -
  have "rows_of F \<noteq> []"
    using rows_of_length [OF shp] nx by auto
  then have ne: "(rows_of F = []) = False" by simp
  show ?thesis
    by (simp only: hc_dfdt_def encode_pack [OF shp len] pad_wrap_x_def fp_def Let_def ne
          if_False sum.case prod.case)
qed

text \<open>
  C3.  For a state packed from a distribution \<open>F\<close> of shape \<open>(nx, nv)\<close>, on a grid with at
  least one position, a velocity grid of \<open>nv\<close> entries and nonzero spacings: the
  derivative evaluation returns a vector of \<open>nx * nv + 2\<close> entries whose entry for grid
  point \<open>(i, j)\<close> is \<open>-v[j] (dF/dx) + E (dF/dv)\<close>, with \<open>dF/dx\<close> and \<open>dF/dv\<close> the
  symmetric differences of the padded array around the cell \<open>(i + 1, j + 1)\<close>, divided by
  \<open>2 dx\<close> and \<open>2 dv\<close>; the padded array has one ghost cell on each side, periodic along
  \<open>x\<close> and zero along \<open>v\<close>.
\<close>

theorem hc_dfdt_distribution:
  assumes shp: "shape F = [hc_nx m, hc_nv m]" and len: "length (data F) = hc_nx m * hc_nv m"
    and nx: "0 < hc_nx m" and lv: "length (hc_v m) = hc_nv m"
    and dx: "hc_dx m \<noteq> 0" and dv: "hc_dv m \<noteq> 0"
  shows "\<exists>out. hc_dfdt m t (pack F V E) = Inr out
           \<and> length out = hc_nx m * hc_nv m + 2
           \<and> (\<forall>i<hc_nx m. \<forall>j<hc_nv m.
                 out ! (i * hc_nv m + j) =
                   - (hc_v m ! j)
                     * ((f_pad_spec (hc_nx m) (hc_nv m) (data F) (i + 2) (j + 1)
                         - f_pad_spec (hc_nx m) (hc_nv m) (data F) i (j + 1)) / (2 * hc_dx m))
                   + E
                     * ((f_pad_spec (hc_nx m) (hc_nv m) (data F) (i + 1) (j + 2)
                         - f_pad_spec (hc_nx m) (hc_nv m) (data F) (i + 1) j) / (2 * hc_dv m)))"
proof -
  let ?r = "hc_nx m" and ?c = "hc_nv m"
  define fp where "fp = pad_const_v 0 (last (rows_of F) # rows_of F @ [hd (rows_of F)])"
  define D where "D = map2 (\<lambda>rx rv. map2 (+) (map2 (\<lambda>vj d. - vj * d) (hc_v m) rx) (map (\<lambda>d. E * d) rv))
               (map2 (map2 (\<lambda>a b. (a - b) / (2 * hc_dx m)))
                  (map inner (from2 fp)) (map inner (upto_m2 fp)))
               (map2 (map2 (\<lambda>a b. (a - b) / (2 * hc_dv m)))
                  (map from2 (inner fp)) (map upto_m2 (inner fp)))"
  define tl2 where "tl2 = [- E - hc_nu m * V] @ [coef * (hc_ne m * V
               + sum_list (concat (map (\<lambda>r. map2 (*) r (hc_v m)) (rows_of F))) * hc_dv m)]"
  have out: "hc_dfdt m t (pack F V E) = Inr (concat D @ tl2)"
    unfolding D_def tl2_def fp_def by (rule hc_dfdt_pack [OF shp len nx])
  have lfp: "length fp = ?r + 2"
    by (simp add: fp_def pad_const_length rows_of_length [OF shp])
  have lrow: "\<And>a. a < ?r + 2 \<Longrightarrow> length (fp ! a) = ?c + 2"
    unfolding fp_def by (rule f_pad_row_length [OF shp len nx])
  have ent: "\<And>a b. a < ?r + 2 \<Longrightarrow> b < ?c + 2 \<Longrightarrow> fp ! a ! b = f_pad_spec ?r ?c (data F) a b"
    unfolding fp_def by (rule f_pad_entry [OF shp len nx])
  have lD: "length D = ?r"
    unfolding D_def by (rule stencil_rows(1) [OF lfp lrow lv])
  have lDi: "\<And>i. i < ?r \<Longrightarrow> length (D ! i) = ?c"
    unfolding D_def by (rule stencil_rows(2) [OF lfp lrow lv])
  have Dij: "\<And>i j. i < ?r \<Longrightarrow> j < ?c \<Longrightarrow>
      D ! i ! j = - (hc_v m ! j) * ((fp ! (i + 2) ! (j + 1) - fp ! i ! (j + 1)) / (2 * hc_dx m))
                  + E * ((fp ! (i + 1) ! (j + 2) - fp ! (i + 1) ! j) / (2 * hc_dv m))"
    unfolding D_def by (rule stencil_rows(3) [OF lfp lrow lv])
  have uni: "\<forall>row\<in>set D. length row = ?c"
    using lD lDi by (auto simp: in_set_conv_nth)
  have lc: "length (concat D) = ?r * ?c"
    using concat_uniform_length [OF uni] lD by simp
  have "length (concat D @ tl2) = ?r * ?c + 2"
    using lc by (simp add: tl2_def)
  moreover have "\<forall>i<?r. \<forall>j<?c.
      (concat D @ tl2) ! (i * ?c + j) =
        - (hc_v m ! j)
          * ((f_pad_spec ?r ?c (data F) (i + 2) (j + 1)
              - f_pad_spec ?r ?c (data F) i (j + 1)) / (2 * hc_dx m))
        + E
          * ((f_pad_spec ?r ?c (data F) (i + 1) (j + 2)
              - f_pad_spec ?r ?c (data F) (i + 1) j) / (2 * hc_dv m))"
  proof (intro allI impI)
    fix i j
    assume i: "i < ?r" and j: "j < ?c"
    have "i * ?c + j < ?r * ?c"
      using mult_bound [OF i, of ?c] j by linarith
    then have "(concat D @ tl2) ! (i * ?c + j) = concat D ! (i * ?c + j)"
      using lc by (simp add: nth_append)
    also have "\<dots> = D ! i ! j"
      using concat_uniform_nth [OF uni] i j lD by simp
    also have "\<dots> = - (hc_v m ! j) * ((fp ! (i + 2) ! (j + 1) - fp ! i ! (j + 1)) / (2 * hc_dx m))
                  + E * ((fp ! (i + 1) ! (j + 2) - fp ! (i + 1) ! j) / (2 * hc_dv m))"
      using Dij [OF i j] .
    finally show "(concat D @ tl2) ! (i * ?c + j) =
        - (hc_v m ! j)
          * ((f_pad_spec ?r ?c (data F) (i + 2) (j + 1)
              - f_pad_spec ?r ?c (data F) i (j + 1)) / (2 * hc_dx m))
        + E
          * ((f_pad_spec ?r ?c (data F) (i + 1) (j + 2)
              - f_pad_spec ?r ?c (data F) (i + 1) j) / (2 * hc_dv m))"
      using i j by (simp add: ent)
  qed
  ultimately show ?thesis using out by blast
qed

theorem hc_dfdt_distribution_witness:
  "\<exists>out. hc_dfdt hc_grid3 0 (pack F33 7 8) = Inr out \<and> length out = 11 \<and> out ! 0 = 13 / 2"
proof -
  have "\<exists>out. hc_dfdt hc_grid3 0 (pack F33 7 8) = Inr out
           \<and> length out = hc_nx hc_grid3 * hc_nv hc_grid3 + 2
           \<and> (\<forall>i<hc_nx hc_grid3. \<forall>j<hc_nv hc_grid3.
                 out ! (i * hc_nv hc_grid3 + j) =
                   - (hc_v hc_grid3 ! j)
                     * ((f_pad_spec (hc_nx hc_grid3) (hc_nv hc_grid3) (data F33) (i + 2) (j + 1)
                         - f_pad_spec (hc_nx hc_grid3) (hc_nv hc_grid3) (data F33) i (j + 1))
                        / (2 * hc_dx hc_grid3))
                   + 8
                     * ((f_pad_spec (hc_nx hc_grid3) (hc_nv hc_grid3) (data F33) (i + 1) (j + 2)
                         - f_pad_spec (hc_nx hc_grid3) (hc_nv hc_grid3) (data F33) (i + 1) j)
                        / (2 * hc_dv hc_grid3)))"
    by (rule hc_dfdt_distribution) (simp_all add: hc_grid3_def F33_def)
  then obtain out where o: "hc_dfdt hc_grid3 0 (pack F33 7 8) = Inr out"
    and l: "length out = hc_nx hc_grid3 * hc_nv hc_grid3 + 2"
    and e: "\<And>i j. i < hc_nx hc_grid3 \<Longrightarrow> j < hc_nv hc_grid3 \<Longrightarrow>
                 out ! (i * hc_nv hc_grid3 + j) =
                   - (hc_v hc_grid3 ! j)
                     * ((f_pad_spec (hc_nx hc_grid3) (hc_nv hc_grid3) (data F33) (i + 2) (j + 1)
                         - f_pad_spec (hc_nx hc_grid3) (hc_nv hc_grid3) (data F33) i (j + 1))
                        / (2 * hc_dx hc_grid3))
                   + 8
                     * ((f_pad_spec (hc_nx hc_grid3) (hc_nv hc_grid3) (data F33) (i + 1) (j + 2)
                         - f_pad_spec (hc_nx hc_grid3) (hc_nv hc_grid3) (data F33) (i + 1) j)
                        / (2 * hc_dv hc_grid3))"
    by blast
  have "out ! 0 = 13 / 2"
    using e [of 0 0] by (simp add: hc_grid3_def F33_def f_pad_spec_def)
  moreover have "length out = 11" using l by (simp add: hc_grid3_def)
  ultimately show ?thesis using o by blast
qed

lemma sum_list_concat_rows:
  fixes xss :: "real list list"
  shows "sum_list (concat xss) = sum_list (map sum_list xss)"
  by (induction xss) simp_all

lemma sum_list_map2_nth:
  fixes xs ys :: "real list"
  assumes "length xs = c" "length ys = c"
  shows "sum_list (map2 (*) xs ys) = (\<Sum>j<c. xs ! j * ys ! j)"
proof -
  have "sum_list (map2 (*) xs ys) = (\<Sum>j = 0..<length (map2 (*) xs ys). map2 (*) xs ys ! j)"
    by (rule sum_list_sum_nth)
  also have "\<dots> = (\<Sum>j = 0..<c. xs ! j * ys ! j)"
    using assms by (intro sum.cong) auto
  finally show ?thesis by (simp add: lessThan_atLeast0)
qed

lemma sum_rows:
  fixes F :: "real ndarray"
  assumes shp: "shape F = [r, c]" and len: "length (data F) = r * c" and lv: "length v = c"
  shows "sum_list (concat (map (\<lambda>row. map2 (*) row v) (rows_of F)))
           = (\<Sum>i<r. \<Sum>j<c. data F ! (i * c + j) * v ! j)"
proof -
  have "sum_list (concat (map (\<lambda>row. map2 (*) row v) (rows_of F)))
          = sum_list (map (\<lambda>row. sum_list (map2 (*) row v)) (rows_of F))"
    by (simp add: sum_list_concat_rows comp_def)
  also have "\<dots> = (\<Sum>i = 0..<length (rows_of F). sum_list (map2 (*) (rows_of F ! i) v))"
    by (simp add: sum_list_sum_nth)
  also have "\<dots> = (\<Sum>i = 0..<r. \<Sum>j<c. data F ! (i * c + j) * v ! j)"
  proof (intro sum.cong)
    show "{0..<length (rows_of F)} = {0..<r}" by (simp add: rows_of_length [OF shp])
  next
    fix i assume "i \<in> {0..<r}"
    then have i: "i < r" by simp
    have "sum_list (map2 (*) (rows_of F ! i) v) = (\<Sum>j<c. rows_of F ! i ! j * v ! j)"
      using rows_of_row_length [OF shp len i] lv by (rule sum_list_map2_nth)
    also have "\<dots> = (\<Sum>j<c. data F ! (i * c + j) * v ! j)"
      using rows_of_entry [OF shp len i] by (intro sum.cong) auto
    finally show "sum_list (map2 (*) (rows_of F ! i) v) = (\<Sum>j<c. data F ! (i * c + j) * v ! j)" .
  qed
  finally show ?thesis by (simp add: lessThan_atLeast0)
qed

subsection \<open>The two scalar slots\<close>

lemma coef_eq: "coef = e_charge ^ 2 / (me * eps0)"
  by (simp add: coef_def)

lemma coef_pos: "0 < coef"
  by (simp add: coef_def e_charge_def me_def eps0_def)

lemma hc_dfdt_tail:
  assumes shp: "shape F = [hc_nx m, hc_nv m]" and len: "length (data F) = hc_nx m * hc_nv m"
    and nx: "0 < hc_nx m" and lv: "length (hc_v m) = hc_nv m"
  shows "\<exists>D. hc_dfdt m t (pack F V E) =
           Inr (D @ [- E - hc_nu m * V,
                     coef * (hc_ne m * V
                       + (\<Sum>i<hc_nx m. \<Sum>j<hc_nv m. data F ! (i * hc_nv m + j) * hc_v m ! j)
                         * hc_dv m)])
         \<and> length D = hc_nx m * hc_nv m"
proof -
  let ?r = "hc_nx m" and ?c = "hc_nv m"
  define fp where "fp = pad_const_v 0 (last (rows_of F) # rows_of F @ [hd (rows_of F)])"
  define D where "D = map2 (\<lambda>rx rv. map2 (+) (map2 (\<lambda>vj d. - vj * d) (hc_v m) rx) (map (\<lambda>d. E * d) rv))
               (map2 (map2 (\<lambda>a b. (a - b) / (2 * hc_dx m)))
                  (map inner (from2 fp)) (map inner (upto_m2 fp)))
               (map2 (map2 (\<lambda>a b. (a - b) / (2 * hc_dv m)))
                  (map from2 (inner fp)) (map upto_m2 (inner fp)))"
  have out: "hc_dfdt m t (pack F V E) = Inr (concat D @ [- E - hc_nu m * V]
      @ [coef * (hc_ne m * V
               + sum_list (concat (map (\<lambda>r. map2 (*) r (hc_v m)) (rows_of F))) * hc_dv m)])"
    unfolding D_def fp_def by (rule hc_dfdt_pack [OF shp len nx])
  have lfp: "length fp = ?r + 2"
    by (simp add: fp_def pad_const_length rows_of_length [OF shp])
  have lrow: "\<And>a. a < ?r + 2 \<Longrightarrow> length (fp ! a) = ?c + 2"
    unfolding fp_def by (rule f_pad_row_length [OF shp len nx])
  have lD: "length D = ?r"
    unfolding D_def by (rule stencil_rows(1) [OF lfp lrow lv])
  have lDi: "\<And>i. i < ?r \<Longrightarrow> length (D ! i) = ?c"
    unfolding D_def by (rule stencil_rows(2) [OF lfp lrow lv])
  have uni: "\<forall>row\<in>set D. length row = ?c"
    using lD lDi by (auto simp: in_set_conv_nth)
  have lc: "length (concat D) = ?r * ?c"
    using concat_uniform_length [OF uni] lD by simp
  show ?thesis
    using out lc by (simp add: sum_rows [OF shp len lv])
qed

text \<open>
  C4, as amended.  For a distribution \<open>F\<close> of shape \<open>(nx, nv)\<close> on a grid with at least
  one position, the slot after the distribution holds \<open>dV/dt = -E - nu V\<close> and the last
  slot holds \<open>dE/dt = e\<^sup>2/(m\<^sub>e \<epsilon>\<^sub>0) (ne V + S dv)\<close>, where \<open>S\<close> is the sum of \<open>F[i, j] v[j]\<close>
  over all positions \<open>i\<close> and all velocities \<open>j\<close>: \<^verbatim>\<open>np.sum\<close> is called without an
  axis.
\<close>

theorem hc_dfdt_scalars:
  assumes shp: "shape F = [hc_nx m, hc_nv m]" and len: "length (data F) = hc_nx m * hc_nv m"
    and nx: "0 < hc_nx m" and lv: "length (hc_v m) = hc_nv m"
  shows "\<exists>out. hc_dfdt m t (pack F V E) = Inr out
           \<and> out ! (hc_nx m * hc_nv m) = - E - hc_nu m * V
           \<and> out ! (hc_nx m * hc_nv m + 1) =
               e_charge ^ 2 / (me * eps0)
                 * (hc_ne m * V
                    + (\<Sum>i<hc_nx m. \<Sum>j<hc_nv m. data F ! (i * hc_nv m + j) * hc_v m ! j)
                      * hc_dv m)"
proof -
  obtain D where out: "hc_dfdt m t (pack F V E) =
           Inr (D @ [- E - hc_nu m * V,
                     coef * (hc_ne m * V
                       + (\<Sum>i<hc_nx m. \<Sum>j<hc_nv m. data F ! (i * hc_nv m + j) * hc_v m ! j)
                         * hc_dv m)])"
    and lD: "length D = hc_nx m * hc_nv m"
    using hc_dfdt_tail [OF shp len nx lv] by blast
  show ?thesis
    using lD by (simp add: out nth_append coef_eq)
qed

theorem hc_dfdt_scalars_witness:
  "\<exists>out. hc_dfdt hc_grid3 0 (pack F33 7 8) = Inr out
      \<and> out ! 9 = - 15 \<and> out ! 10 = e_charge ^ 2 / (me * eps0) * 14"
proof -
  have "\<exists>out. hc_dfdt hc_grid3 0 (pack F33 7 8) = Inr out
           \<and> out ! (hc_nx hc_grid3 * hc_nv hc_grid3) = - 8 - hc_nu hc_grid3 * 7
           \<and> out ! (hc_nx hc_grid3 * hc_nv hc_grid3 + 1) =
               e_charge ^ 2 / (me * eps0)
                 * (hc_ne hc_grid3 * 7
                    + (\<Sum>i<hc_nx hc_grid3. \<Sum>j<hc_nv hc_grid3.
                         data F33 ! (i * hc_nv hc_grid3 + j) * hc_v hc_grid3 ! j)
                      * hc_dv hc_grid3)"
    by (rule hc_dfdt_scalars) (simp_all add: hc_grid3_def F33_def)
  moreover have "(\<Sum>i<hc_nx hc_grid3. \<Sum>j<hc_nv hc_grid3.
                    data F33 ! (i * hc_nv hc_grid3 + j) * hc_v hc_grid3 ! j) = 7"
    by (simp add: hc_grid3_def F33_def numeral_3_eq_3)
  ultimately show ?thesis
    by (simp add: hc_grid3_def)
qed

text \<open>
  C4 as stated fails: on a two-by-two grid with \<open>F = [[1, 2], [3, 4]]\<close>, \<open>v = [-1, 1]\<close>,
  \<open>V = 1\<close> and \<open>E = 0\<close> the code's field slot is \<open>5\<close> times the coefficient, while the sum
  over the spatial axis alone gives \<open>-7\<close> times it at the first velocity and \<open>13\<close> times
  it at the second.
\<close>

theorem hc_dfdt_field_sum_counterexample:
  "hc_dfdt hc_grid2 0 (pack F22 1 0) = Inr [0, 0, 0, 0, - 1, 5 * coef]
   \<and> 5 * coef \<noteq> dEdt_spec hc_grid2 F22 1 0
   \<and> 5 * coef \<noteq> dEdt_spec hc_grid2 F22 1 1"
proof -
  have s0: "dEdt_spec hc_grid2 F22 1 0 = - 7 * coef"
    by (simp add: dEdt_spec_def sum_over_x_def hc_grid2_def F22_def coef_eq numeral_2_eq_2)
  have s1: "dEdt_spec hc_grid2 F22 1 1 = 13 * coef"
    by (simp add: dEdt_spec_def sum_over_x_def hc_grid2_def F22_def coef_eq numeral_2_eq_2)
  have out: "hc_dfdt hc_grid2 0 (pack F22 1 0) = Inr [0, 0, 0, 0, - 1, 5 * coef]"
    by (simp add: hc_dfdt_def encode_def pack_def reshape_def rows_of_def pad_wrap_x_def
          pad_const_v_def hc_grid2_def F22_def from2_def upto_m2_def inner_def upt_rec)
  show ?thesis unfolding out s0 s1 using coef_pos by simp
qed

section \<open>Properties of the spectral model\<close>

subsection \<open>The partner indices\<close>

lemma jx_arr_length: "length (jx_arr nx ny) = nx * ny"
  unfolding jx_arr_def by (subst concat_uniform_length [where c = ny]) auto

lemma jy_arr_length: "length (jy_arr nx ny) = nx * ny"
  unfolding jy_arr_def by (subst concat_uniform_length [where c = ny]) auto

lemma div_mod_bounds:
  assumes "p < nx * (ny::nat)"
  shows "p div ny < nx" and "p mod ny < ny"
proof -
  have ny: "0 < ny" using assms by (cases ny) auto
  show "p div ny < nx"
    using assms ny by (simp add: less_mult_imp_div_less)
  show "p mod ny < ny" using ny by simp
qed

lemma jx_arr_nth:
  assumes "p < nx * ny"
  shows "jx_arr nx ny ! p = int (p div ny)"
proof -
  let ?rs = "map (\<lambda>a. replicate ny (int a)) [0..<nx]"
  have uni: "\<forall>row\<in>set ?rs. length row = ny" by auto
  have "concat ?rs ! (p div ny * ny + p mod ny) = ?rs ! (p div ny) ! (p mod ny)"
    using div_mod_bounds [OF assms] by (intro concat_uniform_nth [OF uni]) auto
  then show ?thesis
    using div_mod_bounds [OF assms] by (simp add: jx_arr_def)
qed

lemma jy_arr_nth:
  assumes "p < nx * ny"
  shows "jy_arr nx ny ! p = int (p mod ny)"
proof -
  let ?rs = "replicate nx (map int [0..<ny])"
  have uni: "\<forall>row\<in>set ?rs. length row = ny" by auto
  have "concat ?rs ! (p div ny * ny + p mod ny) = ?rs ! (p div ny) ! (p mod ny)"
    using div_mod_bounds [OF assms] by (intro concat_uniform_nth [OF uni]) auto
  then show ?thesis
    using div_mod_bounds [OF assms] by (simp add: jy_arr_def)
qed

lemma j_arr_eq: "j_arr nx ny = map int [0..<nx * ny]"
proof (rule nth_equalityI)
  show "length (j_arr nx ny) = length (map int [0..<nx * ny])"
    by (simp add: j_arr_def jx_arr_length jy_arr_length)
next
  fix p assume "p < length (j_arr nx ny)"
  then have p: "p < nx * ny"
    by (simp add: j_arr_def jx_arr_length jy_arr_length)
  have "int (p div ny) * int ny + int (p mod ny) = int p"
    by (metis div_mult_mod_eq of_nat_add of_nat_mult)
  then show "j_arr nx ny ! p = map int [0..<nx * ny] ! p"
    using p by (simp add: j_arr_def jx_arr_length jy_arr_length jx_arr_nth jy_arr_nth)
qed

subsection \<open>Writing a whole row through the index array\<close>

lemma scatter_range:
  "length vs = n \<Longrightarrow> k + n \<le> length row \<Longrightarrow>
     fold (\<lambda>(i, w) r. r[nat i := w]) (zip (map int [k..<k + n]) vs) row
       = take k row @ vs @ drop (k + n) row"
proof (induction vs arbitrary: k n row)
  case Nil
  then show ?case by simp
next
  case (Cons w ws)
  then obtain n' where n: "n = Suc n'" by (cases n) auto
  have up: "[k..<k + n] = k # [Suc k..<Suc k + n']"
    using n by (simp add: upt_conv_Cons)
  have k: "k < length row" using Cons.prems n by simp
  have "fold (\<lambda>(i, w) r. r[nat i := w]) (zip (map int [k..<k + n]) (w # ws)) row
          = fold (\<lambda>(i, w) r. r[nat i := w]) (zip (map int [Suc k..<Suc k + n']) ws) (row[k := w])"
    by (simp add: up)
  also have "\<dots> = take (Suc k) (row[k := w]) @ ws @ drop (Suc k + n') (row[k := w])"
    using Cons.prems n by (intro Cons.IH) auto
  also have "\<dots> = take k row @ (w # ws) @ drop (k + n) row"
    using k n by (simp add: take_Suc_conv_app_nth)
  finally show ?case .
qed

lemma scatter_all:
  assumes "length row = n" and "length vals = n"
  shows "scatter row (map int [0..<n]) vals = vals"
  using scatter_range [of vals n 0 row] assms by (simp add: scatter_def)

subsection \<open>The double loop fills the arrays\<close>

lemma fold_update_upt:
  "n \<le> length xs \<Longrightarrow>
     fold (\<lambda>i ys. ys[i := g i (ys ! i)]) [0..<n] xs = map (\<lambda>i. g i (xs ! i)) [0..<n] @ drop n xs"
proof (induction n)
  case 0
  then show ?case by simp
next
  case (Suc n)
  let ?ys = "map (\<lambda>i. g i (xs ! i)) [0..<n] @ drop n xs"
  have n: "n < length xs" using Suc.prems by simp
  have ys: "fold (\<lambda>i ys. ys[i := g i (ys ! i)]) [0..<n] xs = ?ys"
    using Suc by simp
  have nth: "?ys ! n = xs ! n"
    using n by (simp add: nth_append)
  have "?ys[n := g n (xs ! n)] = map (\<lambda>i. g i (xs ! i)) [0..<n] @ (drop n xs)[0 := g n (xs ! n)]"
    by (simp add: list_update_append)
  also have "(drop n xs)[0 := g n (xs ! n)] = g n (xs ! n) # drop (Suc n) xs"
    using n by (simp add: Cons_nth_drop_Suc [symmetric])
  finally show ?case
    using ys nth by simp
qed

lemma fold_update_row:
  "ix < length A \<Longrightarrow>
     fold (\<lambda>iy B. B[ix := (B ! ix)[iy := h iy (B ! ix ! iy)]]) iys A
       = A[ix := fold (\<lambda>iy r. r[iy := h iy (r ! iy)]) iys (A ! ix)]"
  by (induction iys arbitrary: A) simp_all

lemma fill_row:
  assumes ix: "ix < length A" and ly: "length (A ! ix) = ny"
    and lz: "\<And>iy. iy < ny \<Longrightarrow> length (A ! ix ! iy) = N"
    and lg: "\<And>iy. iy < ny \<Longrightarrow> length (g iy) = N"
  shows "fold (\<lambda>iy B. assign3 B ix iy (map int [0..<N]) (g iy)) [0..<ny] A
           = A[ix := map g [0..<ny]]"
proof -
  have "fold (\<lambda>iy B. assign3 B ix iy (map int [0..<N]) (g iy)) [0..<ny] A
          = A[ix := fold (\<lambda>iy r. r[iy := scatter (r ! iy) (map int [0..<N]) (g iy)])
                      [0..<ny] (A ! ix)]"
    unfolding assign3_def
    using fold_update_row [OF ix, of "\<lambda>iy old. scatter old (map int [0..<N]) (g iy)" "[0..<ny]"]
    by simp
  also have "fold (\<lambda>iy r. r[iy := scatter (r ! iy) (map int [0..<N]) (g iy)]) [0..<ny] (A ! ix)
          = map (\<lambda>iy. scatter (A ! ix ! iy) (map int [0..<N]) (g iy)) [0..<ny] @ drop ny (A ! ix)"
    using ly by (intro fold_update_upt) simp
  also have "\<dots> = map g [0..<ny]"
    using ly lz lg by (simp add: scatter_all)
  finally show ?thesis .
qed

lemma fill3:
  assumes lA: "length A = nx" and ly: "\<And>ix. ix < nx \<Longrightarrow> length (A ! ix) = ny"
    and lz: "\<And>ix iy. ix < nx \<Longrightarrow> iy < ny \<Longrightarrow> length (A ! ix ! iy) = N"
    and lg: "\<And>ix iy. ix < nx \<Longrightarrow> iy < ny \<Longrightarrow> length (g ix iy) = N"
    and n: "n \<le> nx"
  shows "fold (\<lambda>ix. fold (\<lambda>iy B. assign3 B ix iy (map int [0..<N]) (g ix iy)) [0..<ny]) [0..<n] A
           = map (\<lambda>ix. map (g ix) [0..<ny]) [0..<n] @ drop n A"
  using n
proof (induction n)
  case 0
  then show ?case by simp
next
  case (Suc n)
  let ?B = "map (\<lambda>ix. map (g ix) [0..<ny]) [0..<n] @ drop n A"
  have n: "n < nx" using Suc.prems by simp
  have B: "fold (\<lambda>ix. fold (\<lambda>iy B. assign3 B ix iy (map int [0..<N]) (g ix iy)) [0..<ny]) [0..<n] A = ?B"
    using Suc by simp
  have lB: "n < length ?B" using n lA by simp
  have Bn: "?B ! n = A ! n" using n lA by (simp add: nth_append)
  have "fold (\<lambda>iy B. assign3 B n iy (map int [0..<N]) (g n iy)) [0..<ny] ?B = ?B[n := map (g n) [0..<ny]]"
    using lB Bn ly [OF n] lz [OF n] lg [OF n] by (intro fill_row) simp_all
  also have "\<dots> = map (\<lambda>ix. map (g ix) [0..<ny]) [0..<n] @ (drop n A)[0 := map (g n) [0..<ny]]"
    by (simp add: list_update_append)
  also have "(drop n A)[0 := map (g n) [0..<ny]] = map (g n) [0..<ny] # drop (Suc n) A"
    using n lA by (simp add: Cons_nth_drop_Suc [symmetric])
  finally show ?case using B by simp
qed

lemma fill3_zeros:
  assumes lg: "\<And>ix iy. ix < nx \<Longrightarrow> iy < ny \<Longrightarrow> length (g ix iy) = N"
  shows "fold (\<lambda>ix. fold (\<lambda>iy B. assign3 B ix iy (map int [0..<N]) (g ix iy)) [0..<ny]) [0..<nx]
           (zeros3 nx ny N)
           = map (\<lambda>ix. map (g ix) [0..<ny]) [0..<nx]"
  using fill3 [of "zeros3 nx ny N" nx ny N g nx] lg by (simp add: zeros3_def)

subsection \<open>The loop with its assertions\<close>

lemma for_each_inv:
  assumes step: "\<And>i s. i \<in> set js \<Longrightarrow> I s \<Longrightarrow>
                   body i s = (if ok i then Inr (upd i s) else Inl (err i))"
    and pres: "\<And>i s. i \<in> set js \<Longrightarrow> I s \<Longrightarrow> I (upd i s)"
    and inv: "I s"
  shows "for_each body js s =
           (case find (\<lambda>i. \<not> ok i) js of
              None \<Rightarrow> Inr (fold upd js s)
            | Some i \<Rightarrow> Inl (err i))"
  using assms
proof (induction js arbitrary: s)
  case Nil
  then show ?case by simp
next
  case (Cons i js)
  show ?case
  proof (cases "ok i")
    case True
    have "for_each body js (upd i s) =
           (case find (\<lambda>i. \<not> ok i) js of
              None \<Rightarrow> Inr (fold upd js (upd i s))
            | Some i \<Rightarrow> Inl (err i))"
      using Cons.prems by (intro Cons.IH) auto
    then show ?thesis
      using True Cons.prems(1) [of i s] Cons.prems(3) by (simp split: option.splits)
  next
    case False
    then show ?thesis
      using Cons.prems(1) [of i s] Cons.prems(3) by simp
  qed
qed

lemma fold_inv:
  assumes "\<And>i s. I s \<Longrightarrow> I (upd i s)" and "I s"
  shows "I (fold upd js s)"
  using assms(2) by (induction js arbitrary: s) (simp_all add: assms(1))

lemma setup_write_frame:
  "kx (setup_write ix iy s) = kx s" "ky (setup_write ix iy s) = ky s"
  "kgrid (setup_write ix iy s) = kgrid s" "k2 (setup_write ix iy s) = k2 s"
  by (simp_all add: setup_write_def Let_def)

lemma setup_body_eq:
  assumes "kx s = kxs \<and> ky s = kys"
  shows "setup_body ix iy s =
           (if pass_ok kxs kys ix iy then Inr (setup_write ix iy s)
            else Inl (pass_err kxs kys ix iy))"
  using assms by (simp add: setup_body_def Let_def setup_write_frame pass_ok_def pass_err_def)

lemma inner_loop:
  fixes s :: HasegawaMimaFourier
  assumes inv: "kx s = kxs \<and> ky s = kys"
  shows "for_each (setup_body ix) iys s =
           (case find (\<lambda>iy. \<not> pass_ok kxs kys ix iy) iys of
              None \<Rightarrow> Inr (fold (setup_write ix) iys s)
            | Some iy \<Rightarrow> Inl (pass_err kxs kys ix iy))"
proof (rule for_each_inv [where I = "\<lambda>s::HasegawaMimaFourier. kx s = kxs \<and> ky s = kys"])
  show "\<And>i (s::HasegawaMimaFourier). i \<in> set iys \<Longrightarrow> kx s = kxs \<and> ky s = kys \<Longrightarrow>
          setup_body ix i s =
            (if pass_ok kxs kys ix i then Inr (setup_write ix i s) else Inl (pass_err kxs kys ix i))"
    by (rule setup_body_eq)
  show "\<And>i (s::HasegawaMimaFourier). i \<in> set iys \<Longrightarrow> kx s = kxs \<and> ky s = kys \<Longrightarrow>
          kx (setup_write ix i s) = kxs \<and> ky (setup_write ix i s) = kys"
    by (simp add: setup_write_frame)
  show "kx s = kxs \<and> ky s = kys" by (rule inv)
qed

lemma inner_writes_frame:
  fixes s :: HasegawaMimaFourier
  shows "kx (fold (setup_write ix) iys s) = kx s \<and> ky (fold (setup_write ix) iys s) = ky s"
  by (rule fold_inv [where I = "\<lambda>s'::HasegawaMimaFourier. kx s' = kx s \<and> ky s' = ky s"])
     (simp_all add: setup_write_frame)

lemma outer_loop:
  fixes s :: HasegawaMimaFourier
  assumes inv: "kx s = kxs \<and> ky s = kys"
  shows "for_each (\<lambda>ix. for_each (setup_body ix) iys) ixs s =
           (case find (\<lambda>ix. \<not> (\<forall>iy\<in>set iys. pass_ok kxs kys ix iy)) ixs of
              None \<Rightarrow> Inr (fold (\<lambda>ix. fold (setup_write ix) iys) ixs s)
            | Some ix \<Rightarrow> Inl (pass_err kxs kys ix
                                  (the (find (\<lambda>iy. \<not> pass_ok kxs kys ix iy) iys))))"
proof (rule for_each_inv [where I = "\<lambda>s::HasegawaMimaFourier. kx s = kxs \<and> ky s = kys"])
  fix ix and s :: HasegawaMimaFourier
  assume s: "kx s = kxs \<and> ky s = kys"
  show "for_each (setup_body ix) iys s =
          (if \<forall>iy\<in>set iys. pass_ok kxs kys ix iy
           then Inr (fold (setup_write ix) iys s)
           else Inl (pass_err kxs kys ix (the (find (\<lambda>iy. \<not> pass_ok kxs kys ix iy) iys))))"
  proof (cases "find (\<lambda>iy. \<not> pass_ok kxs kys ix iy) iys")
    case None
    then have "\<forall>iy\<in>set iys. pass_ok kxs kys ix iy"
      by (auto simp: find_None_iff)
    with None show ?thesis by (simp add: inner_loop [OF s])
  next
    case (Some iy)
    then have "\<not> (\<forall>iy\<in>set iys. pass_ok kxs kys ix iy)"
      by (auto simp: find_Some_iff)
    with Some show ?thesis by (simp add: inner_loop [OF s])
  qed
  show "kx (fold (setup_write ix) iys s) = kxs \<and> ky (fold (setup_write ix) iys s) = kys"
    using s inner_writes_frame [of ix iys s] by simp
next
  show "kx s = kxs \<and> ky s = kys" by (rule inv)
qed

subsection \<open>The arrays after the loop\<close>

lemma inner_writes_fields:
  fixes s :: HasegawaMimaFourier
  shows "kx (fold (setup_write ix) iys s) = kx s
       \<and> ky (fold (setup_write ix) iys s) = ky s
       \<and> kgrid (fold (setup_write ix) iys s) = kgrid s
       \<and> k2 (fold (setup_write ix) iys s) = k2 s
       \<and> mat (fold (setup_write ix) iys s) =
           fold (\<lambda>iy A. assign3 A ix iy (j_arr (length (kx s)) (length (ky s)))
                           (mat_vals (kx s) (ky s) (k2 s) ix iy)) iys (mat s)
       \<and> index_px (fold (setup_write ix) iys s) =
           fold (\<lambda>iy A. assign3 A ix iy (j_arr (length (kx s)) (length (ky s)))
                           (jx_arr (length (kx s)) (length (ky s)))) iys (index_px s)
       \<and> index_py (fold (setup_write ix) iys s) =
           fold (\<lambda>iy A. assign3 A ix iy (j_arr (length (kx s)) (length (ky s)))
                           (jy_arr (length (kx s)) (length (ky s)))) iys (index_py s)
       \<and> index_qx (fold (setup_write ix) iys s) =
           fold (\<lambda>iy A. assign3 A ix iy (j_arr (length (kx s)) (length (ky s)))
                           (where0 (valid_x (length (kx s)) (length (ky s)) ix)
                                   (lxw (length (kx s)) (length (ky s)) ix))) iys (index_qx s)
       \<and> index_qy (fold (setup_write ix) iys s) =
           fold (\<lambda>iy A. assign3 A ix iy (j_arr (length (kx s)) (length (ky s)))
                           (where0 (valid_y (length (kx s)) (length (ky s)) iy)
                                   (lyw (length (kx s)) (length (ky s)) iy))) iys (index_qy s)"
proof (induction iys arbitrary: s)
  case Nil
  show ?case by simp
next
  case (Cons iy iys)
  show ?case
    using Cons.IH [of "setup_write ix iy s"]
    by (simp add: setup_write_frame) (simp add: setup_write_def Let_def)
qed

lemma outer_writes_fields:
  fixes s :: HasegawaMimaFourier
  shows "kx (fold (\<lambda>ix. fold (setup_write ix) iys) ixs s) = kx s
       \<and> ky (fold (\<lambda>ix. fold (setup_write ix) iys) ixs s) = ky s
       \<and> kgrid (fold (\<lambda>ix. fold (setup_write ix) iys) ixs s) = kgrid s
       \<and> k2 (fold (\<lambda>ix. fold (setup_write ix) iys) ixs s) = k2 s
       \<and> mat (fold (\<lambda>ix. fold (setup_write ix) iys) ixs s) =
           fold (\<lambda>ix. fold (\<lambda>iy A. assign3 A ix iy (j_arr (length (kx s)) (length (ky s)))
                           (mat_vals (kx s) (ky s) (k2 s) ix iy)) iys) ixs (mat s)
       \<and> index_px (fold (\<lambda>ix. fold (setup_write ix) iys) ixs s) =
           fold (\<lambda>ix. fold (\<lambda>iy A. assign3 A ix iy (j_arr (length (kx s)) (length (ky s)))
                           (jx_arr (length (kx s)) (length (ky s)))) iys) ixs (index_px s)
       \<and> index_py (fold (\<lambda>ix. fold (setup_write ix) iys) ixs s) =
           fold (\<lambda>ix. fold (\<lambda>iy A. assign3 A ix iy (j_arr (length (kx s)) (length (ky s)))
                           (jy_arr (length (kx s)) (length (ky s)))) iys) ixs (index_py s)
       \<and> index_qx (fold (\<lambda>ix. fold (setup_write ix) iys) ixs s) =
           fold (\<lambda>ix. fold (\<lambda>iy A. assign3 A ix iy (j_arr (length (kx s)) (length (ky s)))
                           (where0 (valid_x (length (kx s)) (length (ky s)) ix)
                                   (lxw (length (kx s)) (length (ky s)) ix))) iys) ixs (index_qx s)
       \<and> index_qy (fold (\<lambda>ix. fold (setup_write ix) iys) ixs s) =
           fold (\<lambda>ix. fold (\<lambda>iy A. assign3 A ix iy (j_arr (length (kx s)) (length (ky s)))
                           (where0 (valid_y (length (kx s)) (length (ky s)) iy)
                                   (lyw (length (kx s)) (length (ky s)) iy))) iys) ixs (index_qy s)"
proof (induction ixs arbitrary: s)
  case Nil
  show ?case by simp
next
  case (Cons ix ixs)
  show ?case
    using Cons.IH [of "fold (setup_write ix) iys s"] inner_writes_fields [of ix iys s]
    by simp
qed

lemma k2_grid_length: "length (k2_grid kxs kys) = length kxs"
  by (simp add: k2_grid_def stack_last_def meshgrid_def)

lemma k2_grid_entry:
  assumes "a < length kxs" and "b < length kys"
  shows "k2_grid kxs kys ! a ! b = (kys ! b) ^ 2 + (kxs ! a) ^ 2"
  using assms by (simp add: k2_grid_def stack_last_def meshgrid_def)

lemma k2_grid_row_length:
  assumes "a < length kxs"
  shows "length (k2_grid kxs kys ! a) = length kys"
  using assms by (simp add: k2_grid_def stack_last_def meshgrid_def)

lemma where0_length: "length (where0 cs xs) = min (length cs) (length xs)"
  by (simp add: where0_def)

lemma pass_lengths:
  "length (lx_arr nx ny ix) = nx * ny" "length (ly_arr nx ny iy) = nx * ny"
  "length (valid_x nx ny ix) = nx * ny" "length (valid_y nx ny iy) = nx * ny"
  "length (lxw nx ny ix) = nx * ny" "length (lyw nx ny iy) = nx * ny"
  "length (valid_xy nx ny ix iy) = nx * ny"
  by (simp_all add: lx_arr_def ly_arr_def valid_x_def valid_y_def lxw_def lyw_def valid_xy_def
        where0_length jx_arr_length jy_arr_length)

lemma mat_vals_length: "length (mat_vals kxs kys k2s ix iy) = length kxs * length kys"
  by (simp add: mat_vals_def Let_def where0_length pass_lengths take_at_def
        jx_arr_length jy_arr_length)

lemma hm_setup_loop:
  "hm_setup kxs kys =
     (case find (\<lambda>ix. \<not> (\<forall>iy\<in>set [0..<length kys]. pass_ok kxs kys ix iy)) [0..<length kxs] of
        None \<Rightarrow>
          Inr (fold (\<lambda>ix. fold (setup_write ix) [0..<length kys]) [0..<length kxs]
                 \<lparr>kx = kxs, ky = kys, kgrid = stack_last (meshgrid kys kxs),
                  k2 = k2_grid kxs kys,
                  mat = zeros3 (length kxs) (length kys) (length kxs * length kys),
                  index_px = zeros3 (length kxs) (length kys) (length kxs * length kys),
                  index_py = zeros3 (length kxs) (length kys) (length kxs * length kys),
                  index_qx = zeros3 (length kxs) (length kys) (length kxs * length kys),
                  index_qy = zeros3 (length kxs) (length kys) (length kxs * length kys)\<rparr>)
      | Some ix \<Rightarrow>
          Inl (pass_err kxs kys ix
                 (the (find (\<lambda>iy. \<not> pass_ok kxs kys ix iy) [0..<length kys]))))"
  unfolding hm_setup_def Let_def k2_grid_def [symmetric]
  by (rule outer_loop) simp

lemma hm_setup_fail:
  assumes "\<not> (\<forall>ix<length kxs. \<forall>iy<length kys. pass_ok kxs kys ix iy)"
  shows "hm_setup kxs kys = Inl (AssertionError Sanity_kx)
       \<or> hm_setup kxs kys = Inl (AssertionError Sanity_ky)"
proof -
  obtain a b where ab: "a < length kxs" "b < length kys" "\<not> pass_ok kxs kys a b"
    using assms by blast
  then have "a \<in> set [0..<length kxs] \<and> \<not> (\<forall>iy\<in>set [0..<length kys]. pass_ok kxs kys a iy)"
    by auto
  then have "find (\<lambda>ix. \<not> (\<forall>iy\<in>set [0..<length kys]. pass_ok kxs kys ix iy)) [0..<length kxs] \<noteq> None"
    unfolding find_None_iff by blast
  then obtain ix where
    "find (\<lambda>ix. \<not> (\<forall>iy\<in>set [0..<length kys]. pass_ok kxs kys ix iy)) [0..<length kxs] = Some ix"
    by auto
  then show ?thesis
    by (simp add: hm_setup_loop pass_err_def)
qed

lemma hm_setup_fields:
  assumes ok: "\<forall>ix<length kxs. \<forall>iy<length kys. pass_ok kxs kys ix iy"
  shows "\<exists>m. hm_setup kxs kys = Inr m
       \<and> kx m = kxs \<and> ky m = kys \<and> k2 m = k2_grid kxs kys
       \<and> mat m = map (\<lambda>ix. map (\<lambda>iy. mat_vals kxs kys (k2_grid kxs kys) ix iy)
                               [0..<length kys]) [0..<length kxs]
       \<and> index_px m = map (\<lambda>ix. map (\<lambda>iy. jx_arr (length kxs) (length kys))
                               [0..<length kys]) [0..<length kxs]
       \<and> index_py m = map (\<lambda>ix. map (\<lambda>iy. jy_arr (length kxs) (length kys))
                               [0..<length kys]) [0..<length kxs]
       \<and> index_qx m = map (\<lambda>ix. map (\<lambda>iy. where0 (valid_x (length kxs) (length kys) ix)
                                                     (lxw (length kxs) (length kys) ix))
                               [0..<length kys]) [0..<length kxs]
       \<and> index_qy m = map (\<lambda>ix. map (\<lambda>iy. where0 (valid_y (length kxs) (length kys) iy)
                                                     (lyw (length kxs) (length kys) iy))
                               [0..<length kys]) [0..<length kxs]"
proof -
  let ?nx = "length kxs" and ?ny = "length kys"
  let ?s0 = "\<lparr>kx = kxs, ky = kys, kgrid = stack_last (meshgrid kys kxs),
                  k2 = k2_grid kxs kys,
                  mat = zeros3 ?nx ?ny (?nx * ?ny),
                  index_px = zeros3 ?nx ?ny (?nx * ?ny),
                  index_py = zeros3 ?nx ?ny (?nx * ?ny),
                  index_qx = zeros3 ?nx ?ny (?nx * ?ny),
                  index_qy = zeros3 ?nx ?ny (?nx * ?ny)\<rparr>"
  let ?m = "fold (\<lambda>ix. fold (setup_write ix) [0..<?ny]) [0..<?nx] ?s0"
  have "find (\<lambda>ix. \<not> (\<forall>iy\<in>set [0..<?ny]. pass_ok kxs kys ix iy)) [0..<?nx] = None"
    using ok by (auto simp: find_None_iff)
  then have res: "hm_setup kxs kys = Inr ?m"
    by (simp add: hm_setup_loop)
  note F = outer_writes_fields [of "[0..<?ny]" "[0..<?nx]" ?s0, simplified, unfolded j_arr_eq]
  have "mat ?m = map (\<lambda>ix. map (\<lambda>iy. mat_vals kxs kys (k2_grid kxs kys) ix iy) [0..<?ny]) [0..<?nx]"
    using F by (simp add: fill3_zeros mat_vals_length)
  moreover have "index_px ?m = map (\<lambda>ix. map (\<lambda>iy. jx_arr ?nx ?ny) [0..<?ny]) [0..<?nx]"
    using F by (simp add: fill3_zeros jx_arr_length)
  moreover have "index_py ?m = map (\<lambda>ix. map (\<lambda>iy. jy_arr ?nx ?ny) [0..<?ny]) [0..<?nx]"
    using F by (simp add: fill3_zeros jy_arr_length)
  moreover have "index_qx ?m = map (\<lambda>ix. map (\<lambda>iy. where0 (valid_x ?nx ?ny ix) (lxw ?nx ?ny ix))
                               [0..<?ny]) [0..<?nx]"
    using F by (simp add: fill3_zeros where0_length pass_lengths)
  moreover have "index_qy ?m = map (\<lambda>ix. map (\<lambda>iy. where0 (valid_y ?nx ?ny iy) (lyw ?nx ?ny iy))
                               [0..<?ny]) [0..<?nx]"
    using F by (simp add: fill3_zeros where0_length pass_lengths)
  moreover have "kx ?m = kxs \<and> ky ?m = kys \<and> k2 ?m = k2_grid kxs kys"
    using F by simp
  ultimately show ?thesis using res by blast
qed

lemma hm_setup_Inr:
  assumes "hm_setup kxs kys = Inr m"
  shows "\<forall>ix<length kxs. \<forall>iy<length kys. pass_ok kxs kys ix iy"
proof (rule ccontr)
  assume "\<not> (\<forall>ix<length kxs. \<forall>iy<length kys. pass_ok kxs kys ix iy)"
  from hm_setup_fail [OF this] assms show False by auto
qed

subsection \<open>One entry of one pass\<close>

lemma where0_nth:
  "p < length cs \<Longrightarrow> p < length xs \<Longrightarrow> where0 cs xs ! p = (if cs ! p then xs ! p else 0)"
  by (simp add: where0_def)

lemma lx_arr_nth:
  "p < nx * ny \<Longrightarrow> lx_arr nx ny ix ! p = 3 * half nx - int ix - int (p div ny)"
  by (simp add: lx_arr_def jx_arr_length jx_arr_nth)

lemma ly_arr_nth:
  "p < nx * ny \<Longrightarrow> ly_arr nx ny iy ! p = 3 * half ny - int iy - int (p mod ny)"
  by (simp add: ly_arr_def jy_arr_length jy_arr_nth)

lemma valid_x_nth:
  "p < nx * ny \<Longrightarrow>
     valid_x nx ny ix ! p
       = (0 \<le> 3 * half nx - int ix - int (p div ny) \<and> 3 * half nx - int ix - int (p div ny) < int nx)"
  by (simp add: valid_x_def pass_lengths lx_arr_nth)

lemma valid_y_nth:
  "p < nx * ny \<Longrightarrow>
     valid_y nx ny iy ! p
       = (0 \<le> 3 * half ny - int iy - int (p mod ny) \<and> 3 * half ny - int iy - int (p mod ny) < int ny)"
  by (simp add: valid_y_def pass_lengths ly_arr_nth)

lemma lxw_nth:
  "p < nx * ny \<Longrightarrow>
     lxw nx ny ix ! p = (if valid_x nx ny ix ! p then 3 * half nx - int ix - int (p div ny) else 0)"
  by (simp add: lxw_def where0_nth pass_lengths lx_arr_nth)

lemma lyw_nth:
  "p < nx * ny \<Longrightarrow>
     lyw nx ny iy ! p = (if valid_y nx ny iy ! p then 3 * half ny - int iy - int (p mod ny) else 0)"
  by (simp add: lyw_def where0_nth pass_lengths ly_arr_nth)

lemma index_qx_nth:
  "p < nx * ny \<Longrightarrow>
     where0 (valid_x nx ny ix) (lxw nx ny ix) ! p
       = (if valid_x nx ny ix ! p then 3 * half nx - int ix - int (p div ny) else 0)"
  by (simp add: where0_nth pass_lengths lxw_nth)

lemma index_qy_nth:
  "p < nx * ny \<Longrightarrow>
     where0 (valid_y nx ny iy) (lyw nx ny iy) ! p
       = (if valid_y nx ny iy ! p then 3 * half ny - int iy - int (p mod ny) else 0)"
  by (simp add: where0_nth pass_lengths lyw_nth)

lemma valid_xy_nth:
  "p < nx * ny \<Longrightarrow> valid_xy nx ny ix iy ! p = (valid_x nx ny ix ! p \<and> valid_y nx ny iy ! p)"
  by (simp add: valid_xy_def pass_lengths)

lemma mat_vals_nth:
  assumes "p < length kxs * length kys"
  shows "mat_vals kxs kys k2s ix iy ! p =
     (if valid_x (length kxs) (length kys) ix ! p \<and> valid_y (length kxs) (length kys) iy ! p
      then (kxs ! (p div length kys) * kys ! nat (lyw (length kxs) (length kys) iy ! p)
            - kys ! (p mod length kys) * kxs ! nat (lxw (length kxs) (length kys) ix ! p))
           * k2s ! nat (lxw (length kxs) (length kys) ix ! p)
                 ! nat (lyw (length kxs) (length kys) iy ! p)
      else 0)"
  using assms
  by (simp add: mat_vals_def Let_def where0_nth pass_lengths take_at_def jx_arr_length
        jy_arr_length jx_arr_nth jy_arr_nth valid_xy_nth)

lemma kxsum_nth:
  assumes "p < length kxs * length kys"
  shows "kxsum kxs kys ix iy ! p =
     (if valid_x (length kxs) (length kys) ix ! p \<and> valid_y (length kxs) (length kys) iy ! p
      then kxs ! ix + kxs ! (p div length kys) + kxs ! nat (lxw (length kxs) (length kys) ix ! p)
      else 0)"
  using assms
  by (simp add: kxsum_def Let_def where0_nth pass_lengths take_at_def jx_arr_length
        jx_arr_nth valid_xy_nth)

lemma kysum_nth:
  assumes "p < length kxs * length kys"
  shows "kysum kxs kys ix iy ! p =
     (if valid_x (length kxs) (length kys) ix ! p \<and> valid_y (length kxs) (length kys) iy ! p
      then kys ! iy + kys ! (p mod length kys) + kys ! nat (lyw (length kxs) (length kys) iy ! p)
      else 0)"
  using assms
  by (simp add: kysum_def Let_def where0_nth pass_lengths take_at_def jy_arr_length
        jy_arr_nth valid_xy_nth)

lemma kxsum_length: "length (kxsum kxs kys ix iy) = length kxs * length kys"
  by (simp add: kxsum_def Let_def where0_length pass_lengths take_at_def jx_arr_length)

lemma kysum_length: "length (kysum kxs kys ix iy) = length kxs * length kys"
  by (simp add: kysum_def Let_def where0_length pass_lengths take_at_def jy_arr_length)

lemma allclose0_iff: "allclose0 xs \<longleftrightarrow> (\<forall>p<length xs. \<bar>xs ! p\<bar> \<le> 1 / 10 ^ 8)"
  by (simp add: allclose0_def list_all_length)

subsection \<open>The wavenumber grid\<close>

lemma linspace_length: "length (linspace a b n) = n"
  by (simp add: linspace_def)

lemma linspace_nth:
  "1 < n \<Longrightarrow> i < n \<Longrightarrow> linspace a b n ! i = a + real i * ((b - a) / real (n - 1))"
  by (simp add: linspace_def)

lemma linspace_ends:
  assumes "1 < n"
  shows "linspace a b n ! 0 = a" and "linspace a b n ! (n - 1) = b"
  using assms by (simp_all add: linspace_nth)

lemma half_odd:
  assumes "odd n"
  shows "2 * half n = int n - 1"
proof -
  have "even (int n - 1)" using assms by simp
  then show ?thesis unfolding half_def by simp
qed

text \<open>
  In exact arithmetic the triads of an odd grid of at least three points close exactly,
  so every pass of the loop passes its checks.  (In double precision the sums are zero
  only up to rounding, which stays below the tolerance unless \<open>kmax\<close> is very large.)
\<close>

lemma triad_sum_zero:
  assumes odd: "odd n" and n: "1 < n" and i: "i < n" and j: "j < n"
    and lo: "0 \<le> 3 * half n - int i - int j" and hi: "3 * half n - int i - int j < int n"
  shows "linspace (- kmax) kmax n ! i + linspace (- kmax) kmax n ! j
           + linspace (- kmax) kmax n ! nat (3 * half n - int i - int j) = 0"
proof -
  let ?l = "nat (3 * half n - int i - int j)"
  have l: "?l < n" using lo hi by simp
  have "int i + int j + int ?l = 3 * half n" using lo by simp
  then have "2 * (int i + int j + int ?l) = 3 * (int n - 1)"
    using half_odd [OF odd] by simp
  then have "2 * (real i + real j + real ?l) = 3 * (real n - 1)"
    by (metis (mono_tags, opaque_lifting) of_int_1 of_int_add of_int_diff of_int_mult
        of_int_numeral of_int_of_nat_eq)
  then have s: "real i + real j + real ?l = 3 * (real n - 1) / 2" by simp
  have n1: "real (n - 1) = real n - 1" using n by (simp add: of_nat_diff)
  have nz: "real n - 1 \<noteq> 0" using n by simp
  have "linspace (- kmax) kmax n ! i + linspace (- kmax) kmax n ! j
           + linspace (- kmax) kmax n ! ?l
        = - 3 * kmax + (real i + real j + real ?l) * (2 * kmax / (real n - 1))"
    using n i j l by (simp add: linspace_nth n1 algebra_simps)
  also have "\<dots> = - 3 * kmax + 3 * (real n - 1) / 2 * (2 * kmax / (real n - 1))"
    by (simp only: s)
  also have "\<dots> = 0"
  proof -
    define d where "d = real n - 1"
    have d: "d \<noteq> 0" using nz by (simp add: d_def)
    have "3 * d / 2 * (2 * kmax / d) = 3 * kmax" using d by simp
    then show ?thesis by (simp add: d_def)
  qed
  finally show ?thesis .
qed

lemma pass_ok_linspace:
  assumes ox: "odd nx" and nx: "1 < nx" and oy: "odd ny" and ny: "1 < ny"
    and ix: "ix < nx" and iy: "iy < ny"
  shows "pass_ok (linspace (- kmax) kmax nx) (linspace (- kmax) kmax ny) ix iy"
proof -
  let ?kx = "linspace (- kmax) kmax nx" and ?ky = "linspace (- kmax) kmax ny"
  have "\<bar>kxsum ?kx ?ky ix iy ! p\<bar> \<le> 1 / 10 ^ 8" if p: "p < nx * ny" for p
  proof (cases "valid_x nx ny ix ! p \<and> valid_y nx ny iy ! p")
    case True
    then have v: "0 \<le> 3 * half nx - int ix - int (p div ny)"
        "3 * half nx - int ix - int (p div ny) < int nx"
      using p by (simp_all add: valid_x_nth)
    have "?kx ! ix + ?kx ! (p div ny) + ?kx ! nat (3 * half nx - int ix - int (p div ny)) = 0"
      using ox nx ix div_mod_bounds(1) [OF p] v by (rule triad_sum_zero)
    then show ?thesis
      using True p by (simp add: kxsum_nth linspace_length lxw_nth)
  next
    case False
    then show ?thesis using p by (auto simp: kxsum_nth linspace_length)
  qed
  moreover have "\<bar>kysum ?kx ?ky ix iy ! p\<bar> \<le> 1 / 10 ^ 8" if p: "p < nx * ny" for p
  proof (cases "valid_x nx ny ix ! p \<and> valid_y nx ny iy ! p")
    case True
    then have v: "0 \<le> 3 * half ny - int iy - int (p mod ny)"
        "3 * half ny - int iy - int (p mod ny) < int ny"
      using p by (simp_all add: valid_y_nth)
    have "?ky ! iy + ?ky ! (p mod ny) + ?ky ! nat (3 * half ny - int iy - int (p mod ny)) = 0"
      using oy ny iy div_mod_bounds(2) [OF p] v by (rule triad_sum_zero)
    then show ?thesis
      using True p by (simp add: kysum_nth linspace_length lyw_nth)
  next
    case False
    then show ?thesis using p by (auto simp: kysum_nth linspace_length)
  qed
  ultimately show ?thesis
    by (simp add: pass_ok_def allclose0_iff kxsum_length kysum_length linspace_length)
qed

subsection \<open>The constructed model\<close>

lemma hm_init_Inr:
  assumes "hm_init kmax nx ny = Inr m"
  shows "odd nx" and "odd ny"
    and "hm_setup (linspace (- kmax) kmax nx) (linspace (- kmax) kmax ny) = Inr m"
  using assms by (auto simp: hm_init_def odd_iff_mod_2_eq_one split: if_splits)

lemma hm_init_fields:
  assumes init: "hm_init kmax nx ny = Inr m"
  shows "kx m = linspace (- kmax) kmax nx" and "ky m = linspace (- kmax) kmax ny"
    and "k2 m = k2_grid (kx m) (ky m)"
    and "mat m = map (\<lambda>ix. map (\<lambda>iy. mat_vals (kx m) (ky m) (k2 m) ix iy) [0..<ny]) [0..<nx]"
    and "index_px m = map (\<lambda>ix. map (\<lambda>iy. jx_arr nx ny) [0..<ny]) [0..<nx]"
    and "index_py m = map (\<lambda>ix. map (\<lambda>iy. jy_arr nx ny) [0..<ny]) [0..<nx]"
    and "index_qx m = map (\<lambda>ix. map (\<lambda>iy. where0 (valid_x nx ny ix) (lxw nx ny ix))
                                 [0..<ny]) [0..<nx]"
    and "index_qy m = map (\<lambda>ix. map (\<lambda>iy. where0 (valid_y nx ny iy) (lyw nx ny iy))
                                 [0..<ny]) [0..<nx]"
    and "\<forall>ix<nx. \<forall>iy<ny. pass_ok (kx m) (ky m) ix iy"
proof -
  let ?kx = "linspace (- kmax) kmax nx" and ?ky = "linspace (- kmax) kmax ny"
  have s: "hm_setup ?kx ?ky = Inr m" using init by (rule hm_init_Inr)
  have ok: "\<forall>ix<length ?kx. \<forall>iy<length ?ky. pass_ok ?kx ?ky ix iy"
    using s by (rule hm_setup_Inr)
  from hm_setup_fields [OF ok] s
  have f: "kx m = ?kx \<and> ky m = ?ky \<and> k2 m = k2_grid ?kx ?ky
       \<and> mat m = map (\<lambda>ix. map (\<lambda>iy. mat_vals ?kx ?ky (k2_grid ?kx ?ky) ix iy)
                               [0..<length ?ky]) [0..<length ?kx]
       \<and> index_px m = map (\<lambda>ix. map (\<lambda>iy. jx_arr (length ?kx) (length ?ky))
                               [0..<length ?ky]) [0..<length ?kx]
       \<and> index_py m = map (\<lambda>ix. map (\<lambda>iy. jy_arr (length ?kx) (length ?ky))
                               [0..<length ?ky]) [0..<length ?kx]
       \<and> index_qx m = map (\<lambda>ix. map (\<lambda>iy. where0 (valid_x (length ?kx) (length ?ky) ix)
                                                     (lxw (length ?kx) (length ?ky) ix))
                               [0..<length ?ky]) [0..<length ?kx]
       \<and> index_qy m = map (\<lambda>ix. map (\<lambda>iy. where0 (valid_y (length ?kx) (length ?ky) iy)
                                                     (lyw (length ?kx) (length ?ky) iy))
                               [0..<length ?ky]) [0..<length ?kx]"
    by auto
  show "kx m = ?kx" and "ky m = ?ky" using f by simp_all
  show "k2 m = k2_grid (kx m) (ky m)" using f by simp
  show "mat m = map (\<lambda>ix. map (\<lambda>iy. mat_vals (kx m) (ky m) (k2 m) ix iy) [0..<ny]) [0..<nx]"
    using f by (simp add: linspace_length)
  show "index_px m = map (\<lambda>ix. map (\<lambda>iy. jx_arr nx ny) [0..<ny]) [0..<nx]"
    using f by (simp add: linspace_length)
  show "index_py m = map (\<lambda>ix. map (\<lambda>iy. jy_arr nx ny) [0..<ny]) [0..<nx]"
    using f by (simp add: linspace_length)
  show "index_qx m = map (\<lambda>ix. map (\<lambda>iy. where0 (valid_x nx ny ix) (lxw nx ny ix))
                                 [0..<ny]) [0..<nx]"
    using f by (simp add: linspace_length)
  show "index_qy m = map (\<lambda>ix. map (\<lambda>iy. where0 (valid_y nx ny iy) (lyw nx ny iy))
                                 [0..<ny]) [0..<nx]"
    using f by (simp add: linspace_length)
  show "\<forall>ix<nx. \<forall>iy<ny. pass_ok (kx m) (ky m) ix iy"
    using ok f by (simp add: linspace_length)
qed

lemma hm_init_lengths:
  assumes init: "hm_init kmax nx ny = Inr m"
  shows "length (kx m) = nx" and "length (ky m) = ny"
  using hm_init_fields(1,2) [OF init] by (simp_all add: linspace_length)

lemma third_half: "third n i j = 3 * half n - int i - int j"
  by (simp add: third_def half_def)

lemma hm_init_entries:
  assumes init: "hm_init kmax nx ny = Inr m" and ix: "ix < nx" and iy: "iy < ny"
    and j: "j < nx * ny"
  shows "index_px m ! ix ! iy ! j = int (j div ny)"
    and "index_py m ! ix ! iy ! j = int (j mod ny)"
    and "index_qx m ! ix ! iy ! j =
           (if on_grid nx (third nx ix (j div ny)) then third nx ix (j div ny) else 0)"
    and "index_qy m ! ix ! iy ! j =
           (if on_grid ny (third ny iy (j mod ny)) then third ny iy (j mod ny) else 0)"
    and "mat m ! ix ! iy ! j =
           (if on_grid nx (third nx ix (j div ny)) \<and> on_grid ny (third ny iy (j mod ny))
            then (kx m ! (j div ny) * ky m ! nat (third ny iy (j mod ny))
                  - ky m ! (j mod ny) * kx m ! nat (third nx ix (j div ny)))
                 * ((ky m ! nat (third ny iy (j mod ny))) ^ 2
                    + (kx m ! nat (third nx ix (j div ny))) ^ 2)
            else 0)"
proof -
  note f = hm_init_fields [OF init]
  note l = hm_init_lengths [OF init]
  show "index_px m ! ix ! iy ! j = int (j div ny)"
    using ix iy j by (simp add: f(5) jx_arr_nth)
  show "index_py m ! ix ! iy ! j = int (j mod ny)"
    using ix iy j by (simp add: f(6) jy_arr_nth)
  show "index_qx m ! ix ! iy ! j =
           (if on_grid nx (third nx ix (j div ny)) then third nx ix (j div ny) else 0)"
    using ix iy j by (simp add: f(7) index_qx_nth valid_x_nth on_grid_def third_half)
  show "index_qy m ! ix ! iy ! j =
           (if on_grid ny (third ny iy (j mod ny)) then third ny iy (j mod ny) else 0)"
    using ix iy j by (simp add: f(8) index_qy_nth valid_y_nth on_grid_def third_half)
  have m: "mat m ! ix ! iy ! j = mat_vals (kx m) (ky m) (k2_grid (kx m) (ky m)) ix iy ! j"
    using ix iy f(3) by (subst f(4)) simp
  show "mat m ! ix ! iy ! j =
           (if on_grid nx (third nx ix (j div ny)) \<and> on_grid ny (third ny iy (j mod ny))
            then (kx m ! (j div ny) * ky m ! nat (third ny iy (j mod ny))
                  - ky m ! (j mod ny) * kx m ! nat (third nx ix (j div ny)))
                 * ((ky m ! nat (third ny iy (j mod ny))) ^ 2
                    + (kx m ! nat (third nx ix (j div ny))) ^ 2)
            else 0)"
  proof (cases "on_grid nx (third nx ix (j div ny)) \<and> on_grid ny (third ny iy (j mod ny))")
    case True
    then have a: "nat (third nx ix (j div ny)) < length (kx m)"
      and b: "nat (third ny iy (j mod ny)) < length (ky m)"
      by (auto simp: on_grid_def l)
    show ?thesis
      using True j k2_grid_entry [OF a b]
      by (simp add: m mat_vals_nth l valid_x_nth valid_y_nth lxw_nth lyw_nth on_grid_def third_half)
  next
    case False
    then show ?thesis
      using j
      by (auto simp: m mat_vals_nth l valid_x_nth valid_y_nth on_grid_def third_half)
  qed
qed

lemma hm_init_ok:
  assumes "odd nx" and "1 < nx" and "odd ny" and "1 < ny"
  shows "\<exists>m. hm_init kmax nx ny = Inr m"
proof -
  let ?kx = "linspace (- kmax) kmax nx" and ?ky = "linspace (- kmax) kmax ny"
  have "\<forall>ix<length ?kx. \<forall>iy<length ?ky. pass_ok ?kx ?ky ix iy"
    using assms by (simp add: linspace_length pass_ok_linspace)
  from hm_setup_fields [OF this] obtain m where "hm_setup ?kx ?ky = Inr m" by blast
  then show ?thesis
    using assms by (auto simp: hm_init_def odd_iff_mod_2_eq_one)
qed

subsection \<open>Triad closure\<close>







subsection \<open>Invalid triads\<close>

text \<open>
  C8.  Whenever the constructor returns a model, for every \<open>(ix, iy, j)\<close>: an \<open>lx\<close>
  outside \<open>[0, nx)\<close> is stored as \<open>0\<close> in \<open>index_qx\<close> and an \<open>ly\<close> outside \<open>[0, ny)\<close> as
  \<open>0\<close> in \<open>index_qy\<close> (an index in range is stored as it is, never wrapped); if either is
  out of range then \<open>mat[ix, iy, j] = 0\<close>, so the term of the convolution sum is zero
  whatever the two field values are.  Such triads raise nothing: the model was returned.
\<close>

theorem invalid_triads_zeroed:
  assumes init: "hm_init kmax nx ny = Inr m" and ix: "ix < nx" and iy: "iy < ny"
    and j: "j < nx * ny"
  shows "(\<not> on_grid nx (third nx ix (j div ny)) \<longrightarrow> index_qx m ! ix ! iy ! j = 0)
       \<and> (\<not> on_grid ny (third ny iy (j mod ny)) \<longrightarrow> index_qy m ! ix ! iy ! j = 0)
       \<and> (on_grid nx (third nx ix (j div ny))
            \<longrightarrow> index_qx m ! ix ! iy ! j = third nx ix (j div ny))
       \<and> (on_grid ny (third ny iy (j mod ny))
            \<longrightarrow> index_qy m ! ix ! iy ! j = third ny iy (j mod ny))
       \<and> (\<not> (on_grid nx (third nx ix (j div ny)) \<and> on_grid ny (third ny iy (j mod ny)))
            \<longrightarrow> mat m ! ix ! iy ! j = 0
                \<and> (\<forall>a b. complex_of_real (mat m ! ix ! iy ! j) * a * b = 0))"
  using hm_init_entries(3,4,5) [OF init ix iy j] by simp

theorem invalid_triads_zeroed_witness:
  "\<exists>m. hm_init 1 3 3 = Inr m \<and> third 3 0 (0 div 3) = 3 \<and> \<not> on_grid 3 (third 3 0 (0 div 3))
     \<and> index_qx m ! 0 ! 0 ! 0 = 0 \<and> mat m ! 0 ! 0 ! 0 = 0
     \<and> on_grid 3 (third 3 1 (3 div 3)) \<and> \<not> on_grid 3 (third 3 0 (3 mod 3))
     \<and> index_qx m ! 1 ! 0 ! 3 = 1 \<and> index_qy m ! 1 ! 0 ! 3 = 0 \<and> mat m ! 1 ! 0 ! 3 = 0"
proof -
  obtain m where init: "hm_init 1 3 3 = Inr m"
    using hm_init_ok [of 3 3 1] by auto
  have t: "third 3 0 (0 div 3) = 3" "third 3 1 (3 div 3) = 1" "third 3 0 (3 mod 3) = 3"
    by (simp_all add: third_def)
  have "index_qx m ! 0 ! 0 ! 0 = 0 \<and> mat m ! 0 ! 0 ! 0 = 0"
    using invalid_triads_zeroed [OF init, of 0 0 0] by (simp add: third_def on_grid_def)
  moreover have "index_qx m ! 1 ! 0 ! 3 = 1 \<and> index_qy m ! 1 ! 0 ! 3 = 0 \<and> mat m ! 1 ! 0 ! 3 = 0"
    using invalid_triads_zeroed [OF init, of 1 0 3] by (simp add: third_def on_grid_def)
  ultimately show ?thesis using init t by (simp add: on_grid_def)
qed

subsection \<open>What the constructor accepts\<close>

lemma single_point_fails: "\<not> pass_ok [- 10] [- 10] 0 0"
proof -
  have k: "kxsum [- 10] [- 10] 0 0 = [- 30]"
    by (rule nth_equalityI) (simp_all add: kxsum_length kxsum_nth valid_x_nth valid_y_nth
          lxw_nth half_def)
  show ?thesis
    by (simp add: pass_ok_def k allclose0_def)
qed

text \<open>
  C6, as amended.  An even \<open>nx\<close> fails the first precondition and an even \<open>ny\<close> (with
  \<open>nx\<close> odd) the second, both before any grid is built.  For odd \<open>nx\<close> and \<open>ny\<close> the
  preconditions pass and \<open>kx\<close>, \<open>ky\<close> are built as \<open>linspace(-kmax, kmax, nx)\<close> and
  \<open>linspace(-kmax, kmax, ny)\<close>; the construction then succeeds when every pass
  \<open>(ix, iy)\<close> of the double loop passes its two sanity assertions, and fails with the
  assertion error of a sanity check when some pass does not.
\<close>

theorem hm_init_outcomes:
  "(even nx \<longrightarrow> hm_init kmax nx ny = Inl (AssertionError Odd_nx))
   \<and> (odd nx \<and> even ny \<longrightarrow> hm_init kmax nx ny = Inl (AssertionError Odd_ny))
   \<and> (odd nx \<and> odd ny
        \<and> (\<forall>ix<nx. \<forall>iy<ny.
              pass_ok (linspace (- kmax) kmax nx) (linspace (- kmax) kmax ny) ix iy) \<longrightarrow>
        (\<exists>m. hm_init kmax nx ny = Inr m
           \<and> kx m = linspace (- kmax) kmax nx \<and> ky m = linspace (- kmax) kmax ny
           \<and> length (kx m) = nx \<and> length (ky m) = ny))
   \<and> (odd nx \<and> odd ny
        \<and> \<not> (\<forall>ix<nx. \<forall>iy<ny.
              pass_ok (linspace (- kmax) kmax nx) (linspace (- kmax) kmax ny) ix iy) \<longrightarrow>
        hm_init kmax nx ny = Inl (AssertionError Sanity_kx)
        \<or> hm_init kmax nx ny = Inl (AssertionError Sanity_ky))"
proof (intro conjI impI)
  assume "even nx"
  then have "nx mod 2 \<noteq> 1"
    by (simp add: odd_iff_mod_2_eq_one [symmetric])
  then show "hm_init kmax nx ny = Inl (AssertionError Odd_nx)"
    by (simp add: hm_init_def)
next
  assume "odd nx \<and> even ny"
  then have "nx mod 2 = 1" and "ny mod 2 \<noteq> 1"
    by (simp_all add: odd_iff_mod_2_eq_one)
  then show "hm_init kmax nx ny = Inl (AssertionError Odd_ny)"
    by (simp add: hm_init_def)
next
  let ?kx = "linspace (- kmax) kmax nx" and ?ky = "linspace (- kmax) kmax ny"
  assume a: "odd nx \<and> odd ny \<and> (\<forall>ix<nx. \<forall>iy<ny. pass_ok ?kx ?ky ix iy)"
  then have "\<forall>ix<length ?kx. \<forall>iy<length ?ky. pass_ok ?kx ?ky ix iy"
    by (simp add: linspace_length)
  from hm_setup_fields [OF this] obtain m where s: "hm_setup ?kx ?ky = Inr m" by blast
  have init: "hm_init kmax nx ny = Inr m"
    using a s by (simp add: hm_init_def odd_iff_mod_2_eq_one)
  show "\<exists>m. hm_init kmax nx ny = Inr m
           \<and> kx m = linspace (- kmax) kmax nx \<and> ky m = linspace (- kmax) kmax ny
           \<and> length (kx m) = nx \<and> length (ky m) = ny"
    using init hm_init_fields(1,2) [OF init] hm_init_lengths [OF init] by blast
next
  let ?kx = "linspace (- kmax) kmax nx" and ?ky = "linspace (- kmax) kmax ny"
  assume a: "odd nx \<and> odd ny \<and> \<not> (\<forall>ix<nx. \<forall>iy<ny. pass_ok ?kx ?ky ix iy)"
  then have "\<not> (\<forall>ix<length ?kx. \<forall>iy<length ?ky. pass_ok ?kx ?ky ix iy)"
    by (simp add: linspace_length)
  from hm_setup_fail [OF this]
  show "hm_init kmax nx ny = Inl (AssertionError Sanity_kx)
        \<or> hm_init kmax nx ny = Inl (AssertionError Sanity_ky)"
    using a by (simp add: hm_init_def odd_iff_mod_2_eq_one)
qed

theorem hm_init_outcomes_witness:
  "hm_init 10 4 3 = Inl (AssertionError Odd_nx)
   \<and> hm_init 10 3 4 = Inl (AssertionError Odd_ny)
   \<and> (\<exists>m. hm_init 10 3 5 = Inr m \<and> kx m = [- 10, 0, 10] \<and> ky m = [- 10, - 5, 0, 5, 10])
   \<and> (hm_init 10 1 1 = Inl (AssertionError Sanity_kx)
       \<or> hm_init 10 1 1 = Inl (AssertionError Sanity_ky))"
proof -
  have 1: "hm_init 10 4 3 = Inl (AssertionError Odd_nx)"
    using hm_init_outcomes [where nx = 4 and ny = 3 and kmax = 10] by simp
  have 2: "hm_init 10 3 4 = Inl (AssertionError Odd_ny)"
    using hm_init_outcomes [where nx = 3 and ny = 4 and kmax = 10] by simp
  have ok: "\<forall>ix<3. \<forall>iy<5. pass_ok (linspace (- 10) 10 3) (linspace (- 10) 10 5) ix iy"
    by (simp add: pass_ok_linspace)
  have "\<exists>m. hm_init 10 3 5 = Inr m
           \<and> kx m = linspace (- 10) 10 3 \<and> ky m = linspace (- 10) 10 5"
    using hm_init_outcomes [where nx = 3 and ny = 5 and kmax = 10] ok by auto
  moreover have "linspace (- 10) 10 3 = [- 10, 0, 10]"
    and "linspace (- 10) 10 5 = [- 10, - 5, 0, 5, 10]"
    by (simp_all add: linspace_def upt_rec)
  ultimately have 3: "\<exists>m. hm_init 10 3 5 = Inr m \<and> kx m = [- 10, 0, 10]
      \<and> ky m = [- 10, - 5, 0, 5, 10]"
    by simp
  have bad: "\<not> (\<forall>ix<1. \<forall>iy<1. pass_ok (linspace (- 10) 10 1) (linspace (- 10) 10 1) ix iy)"
    using single_point_fails by (simp add: linspace_def)
  have 4: "hm_init 10 1 1 = Inl (AssertionError Sanity_kx)
       \<or> hm_init 10 1 1 = Inl (AssertionError Sanity_ky)"
    using hm_init_outcomes [where nx = 1 and ny = 1 and kmax = 10] bad by simp
  show ?thesis using 1 2 3 4 by blast
qed

text \<open>
  C6 as stated fails on a grid of a single point: \<open>linspace(-10, 10, 1)\<close> is \<open>[-10]\<close>,
  the only triad is valid and its wavenumbers sum to \<open>-30\<close>, and the sanity assertion of
  \<^verbatim>\<open>_setup\<close> fails although \<open>nx\<close> and \<open>ny\<close> are odd.
\<close>

theorem hm_init_single_point_counterexample:
  "hm_init 10 1 1 = Inl (AssertionError Sanity_kx)"
proof -
  have k: "kxsum [- 10] [- 10] 0 0 = [- 30]"
    by (rule nth_equalityI) (simp_all add: kxsum_length kxsum_nth valid_x_nth valid_y_nth
          lxw_nth half_def)
  have "hm_setup [- 10] [- 10] = Inl (AssertionError Sanity_kx)"
    using single_point_fails by (simp add: hm_setup_loop pass_err_def k allclose0_def)
  then show ?thesis
    by (simp add: hm_init_def linspace_def)
qed

subsection \<open>Elementwise operations on three-dimensional arrays\<close>

lemma shape3_D:
  assumes "shape3 a b c X"
  shows "length X = a" and "i < a \<Longrightarrow> length (X ! i) = b"
    and "i < a \<Longrightarrow> j < b \<Longrightarrow> length (X ! i ! j) = c"
  using assms by (simp_all add: shape3_def)

lemma shape3_maps:
  assumes "\<And>i j. i < a \<Longrightarrow> j < b \<Longrightarrow> length (g i j) = c"
  shows "shape3 a b c (map (\<lambda>i. map (\<lambda>j. g i j) [0..<b]) [0..<a])"
  using assms by (simp add: shape3_def)

lemma map2_3_nth:
  assumes X: "shape3 a b c X" and Y: "shape3 a b c Y" and i: "i < a" and j: "j < b" and k: "k < c"
  shows "map2 (map2 (map2 f)) X Y ! i ! j ! k = f (X ! i ! j ! k) (Y ! i ! j ! k)"
  using i j k shape3_D [OF X] shape3_D [OF Y] by simp

lemma map2_3_shape:
  assumes X: "shape3 a b c X" and Y: "shape3 a b c Y"
  shows "shape3 a b c (map2 (map2 (map2 f)) X Y)"
  using shape3_D [OF X] shape3_D [OF Y] by (simp add: shape3_def)

lemma list_all3_I:
  assumes X: "shape3 a b c X"
    and P: "\<And>i j k. i < a \<Longrightarrow> j < b \<Longrightarrow> k < c \<Longrightarrow> P (X ! i ! j ! k)"
  shows "list_all (list_all (list_all P)) X"
  using shape3_D [OF X] P by (simp add: list_all_length)

lemma gather2_Inr:
  assumes X: "shape3 a b c X" and Y: "shape3 a b c Y"
    and PX: "\<And>i j k. i < a \<Longrightarrow> j < b \<Longrightarrow> k < c \<Longrightarrow> index_ok r (X ! i ! j ! k)"
    and PY: "\<And>i j k. i < a \<Longrightarrow> j < b \<Longrightarrow> k < c \<Longrightarrow> index_ok s (Y ! i ! j ! k)"
  shows "gather2 r s A X Y
           = Inr (map2 (map2 (map2 (\<lambda>p q. A ! norm_index r p ! norm_index s q))) X Y)"
  using list_all3_I [OF X, of "index_ok r"] list_all3_I [OF Y, of "index_ok s"] PX PY
  by (simp add: gather2_def)

lemma sum_list_lessThan:
  fixes xs :: "complex list"
  shows "sum_list xs = (\<Sum>k<length xs. xs ! k)"
  by (simp add: sum_list_sum_nth lessThan_atLeast0)

subsection \<open>The derivative of the spectral model\<close>

lemma model_shapes:
  assumes init: "hm_init kmax nx ny = Inr m"
  shows "shape3 nx ny (nx * ny) (mat m)"
    and "shape3 nx ny (nx * ny) (index_px m)" and "shape3 nx ny (nx * ny) (index_py m)"
    and "shape3 nx ny (nx * ny) (index_qx m)" and "shape3 nx ny (nx * ny) (index_qy m)"
proof -
  note f = hm_init_fields [OF init]
  note l = hm_init_lengths [OF init]
  show "shape3 nx ny (nx * ny) (mat m)"
    by (subst f(4), rule shape3_maps) (simp add: mat_vals_length l)
  show "shape3 nx ny (nx * ny) (index_px m)"
    by (subst f(5), rule shape3_maps) (simp add: jx_arr_length)
  show "shape3 nx ny (nx * ny) (index_py m)"
    by (subst f(6), rule shape3_maps) (simp add: jy_arr_length)
  show "shape3 nx ny (nx * ny) (index_qx m)"
    by (subst f(7), rule shape3_maps) (simp add: where0_length pass_lengths)
  show "shape3 nx ny (nx * ny) (index_qy m)"
    by (subst f(8), rule shape3_maps) (simp add: where0_length pass_lengths)
qed

lemma model_indices:
  assumes init: "hm_init kmax nx ny = Inr m" and ix: "ix < nx" and iy: "iy < ny"
    and j: "j < nx * ny"
  shows "0 \<le> index_px m ! ix ! iy ! j \<and> index_px m ! ix ! iy ! j < int nx"
    and "0 \<le> index_py m ! ix ! iy ! j \<and> index_py m ! ix ! iy ! j < int ny"
    and "0 \<le> index_qx m ! ix ! iy ! j \<and> index_qx m ! ix ! iy ! j < int nx"
    and "0 \<le> index_qy m ! ix ! iy ! j \<and> index_qy m ! ix ! iy ! j < int ny"
  using hm_init_entries(1-4) [OF init ix iy j] div_mod_bounds [OF j] ix iy
  by (auto simp: on_grid_def)

lemma norm_index_nonneg: "0 \<le> i \<Longrightarrow> norm_index n i = nat i"
  by (simp add: norm_index_def)

lemma index_ok_range: "0 \<le> i \<and> i < int n \<Longrightarrow> index_ok n i"
  by (simp add: index_ok_def)

lemma k2_nonneg:
  assumes init: "hm_init kmax nx ny = Inr m" and ix: "ix < nx" and iy: "iy < ny"
  shows "0 \<le> k2 m ! ix ! iy"
proof -
  note l = hm_init_lengths [OF init]
  have "k2 m ! ix ! iy = (ky m ! iy) ^ 2 + (kx m ! ix) ^ 2"
    using ix iy l by (simp add: hm_init_fields(3) [OF init] k2_grid_entry)
  then show ?thesis by simp
qed

text \<open>
  C2.  For a model the constructor returned and a state \<open>phi\<close> with \<open>nx * ny\<close> entries
  (the grid of shape \<open>(nx, ny)\<close>, flattened), the derivative function returns, at grid
  point \<open>(ix, iy)\<close>, exactly
  \<open>(-i ky[iy] phi[ix, iy] + \<Sum>\<^sub>j mat[ix, iy, j] conj(phi)[px, py] conj(phi)[qx, qy]) / (1 + k2[ix, iy])\<close>
  with the sum over all \<open>j < nx * ny\<close> and \<open>px, py, qx, qy\<close> read from the four index
  arrays at \<open>(ix, iy, j)\<close>; the divisor is at least \<open>1\<close>.
\<close>

theorem hm_dfdt_formula:
  assumes init: "hm_init kmax nx ny = Inr m" and len: "length phi = nx * ny"
  shows "\<exists>out. hm_dfdt m t phi = Inr out \<and> length out = nx * ny
           \<and> (\<forall>ix<nx. \<forall>iy<ny.
                 out ! (ix * ny + iy) =
                   (- \<i> * complex_of_real (ky m ! iy) * phi ! (ix * ny + iy)
                    + (\<Sum>j<nx * ny.
                         complex_of_real (mat m ! ix ! iy ! j)
                         * cnj (phi ! (nat (index_px m ! ix ! iy ! j) * ny
                                       + nat (index_py m ! ix ! iy ! j)))
                         * cnj (phi ! (nat (index_qx m ! ix ! iy ! j) * ny
                                       + nat (index_qy m ! ix ! iy ! j)))))
                   / complex_of_real (1 + k2 m ! ix ! iy)
                 \<and> 1 \<le> 1 + k2 m ! ix ! iy)"
proof -
  let ?N = "nx * ny"
  let ?phi2 = "\<lparr>shape = [nx, ny], data = phi\<rparr>"
  define P where "P = rows_of ?phi2"
  define C where "C = map (map cnj) P"
  define g where "g = (\<lambda>p q. C ! norm_index nx p ! norm_index ny q)"
  define cp where "cp = map2 (map2 (map2 g)) (index_px m) (index_py m)"
  define cq where "cq = map2 (map2 (map2 g)) (index_qx m) (index_qy m)"
  define lin where
    "lin = map (\<lambda>row. map2 (\<lambda>w p. - \<i> * complex_of_real w * p) (ky m) row) P"
  define mp where "mp = map2 (map2 (map2 (\<lambda>c p. complex_of_real c * p))) (mat m) cp"
  define prod3 where "prod3 = map2 (map2 (map2 (*))) mp cq"
  define S where "S = map (map sum_list) prod3"
  define dphi where "dphi = map2 (map2 (+)) lin S"
  define rows where "rows = map2 (map2 (\<lambda>d w. d / complex_of_real (1 + w))) dphi (k2 m)"
  note l = hm_init_lengths [OF init]
  note sh = model_shapes [OF init]
  note ind = model_indices [OF init]
  have shp: "shape ?phi2 = [nx, ny]" and dat: "length (data ?phi2) = nx * ny"
    using len by simp_all
  have r: "reshape phi [nx, ny] = Inr ?phi2"
    using len by (simp add: reshape_def)
  have gp: "gather2 nx ny C (index_px m) (index_py m) = Inr cp"
    unfolding cp_def g_def
    by (rule gather2_Inr [OF sh(2) sh(3)]) (simp_all add: index_ok_range ind)
  have gq: "gather2 nx ny C (index_qx m) (index_qy m) = Inr cq"
    unfolding cq_def g_def
    by (rule gather2_Inr [OF sh(4) sh(5)]) (simp_all add: index_ok_range ind)
  have out: "hm_dfdt m t phi = Inr (concat rows)"
    unfolding rows_def dphi_def S_def prod3_def mp_def lin_def
    using gp gq unfolding C_def P_def
    by (simp only: hm_dfdt_def hm_shape_def l fst_conv snd_conv Let_def r sum.case)
  have lP: "length P = nx" by (simp add: P_def rows_of_length)
  have lPi: "length (P ! ix) = ny" if "ix < nx" for ix
    unfolding P_def using rows_of_row_length [OF shp dat that] .
  have Pe: "P ! ix ! iy = phi ! (ix * ny + iy)" if "ix < nx" "iy < ny" for ix iy
    unfolding P_def using rows_of_entry [OF shp dat that] by simp
  have Ce: "C ! a ! b = cnj (phi ! (a * ny + b))" if "a < nx" "b < ny" for a b
    using that lP lPi [OF that(1)] Pe [OF that] by (simp add: C_def)
  have ge: "g (X ! ix ! iy ! j) (Y ! ix ! iy ! j)
              = cnj (phi ! (nat (X ! ix ! iy ! j) * ny + nat (Y ! ix ! iy ! j)))"
    if "0 \<le> X ! ix ! iy ! j \<and> X ! ix ! iy ! j < int nx"
      and "0 \<le> Y ! ix ! iy ! j \<and> Y ! ix ! iy ! j < int ny"
    for X Y :: "int list list list" and ix iy j
  proof -
    have "nat (X ! ix ! iy ! j) < nx" and "nat (Y ! ix ! iy ! j) < ny"
      using that by auto
    from Ce [OF this] that show ?thesis
      by (simp add: g_def norm_index_nonneg)
  qed
  have scp: "shape3 nx ny ?N cp" unfolding cp_def by (rule map2_3_shape [OF sh(2) sh(3)])
  have scq: "shape3 nx ny ?N cq" unfolding cq_def by (rule map2_3_shape [OF sh(4) sh(5)])
  have smp: "shape3 nx ny ?N mp" unfolding mp_def by (rule map2_3_shape [OF sh(1) scp])
  have sp3: "shape3 nx ny ?N prod3" unfolding prod3_def by (rule map2_3_shape [OF smp scq])
  have p3: "prod3 ! ix ! iy ! j =
              complex_of_real (mat m ! ix ! iy ! j)
              * cnj (phi ! (nat (index_px m ! ix ! iy ! j) * ny + nat (index_py m ! ix ! iy ! j)))
              * cnj (phi ! (nat (index_qx m ! ix ! iy ! j) * ny + nat (index_qy m ! ix ! iy ! j)))"
    if "ix < nx" "iy < ny" "j < ?N" for ix iy j
  proof -
    have "prod3 ! ix ! iy ! j = mp ! ix ! iy ! j * cq ! ix ! iy ! j"
      unfolding prod3_def by (rule map2_3_nth [OF smp scq that])
    also have "mp ! ix ! iy ! j = complex_of_real (mat m ! ix ! iy ! j) * cp ! ix ! iy ! j"
      unfolding mp_def by (rule map2_3_nth [OF sh(1) scp that])
    also have "cp ! ix ! iy ! j = g (index_px m ! ix ! iy ! j) (index_py m ! ix ! iy ! j)"
      unfolding cp_def by (rule map2_3_nth [OF sh(2) sh(3) that])
    also have "\<dots> = cnj (phi ! (nat (index_px m ! ix ! iy ! j) * ny + nat (index_py m ! ix ! iy ! j)))"
      by (rule ge [OF ind(1) [OF that] ind(2) [OF that]])
    also have "cq ! ix ! iy ! j = g (index_qx m ! ix ! iy ! j) (index_qy m ! ix ! iy ! j)"
      unfolding cq_def by (rule map2_3_nth [OF sh(4) sh(5) that])
    also have "\<dots> = cnj (phi ! (nat (index_qx m ! ix ! iy ! j) * ny + nat (index_qy m ! ix ! iy ! j)))"
      by (rule ge [OF ind(3) [OF that] ind(4) [OF that]])
    finally show ?thesis .
  qed
  have Se: "S ! ix ! iy =
             (\<Sum>j<?N. complex_of_real (mat m ! ix ! iy ! j)
              * cnj (phi ! (nat (index_px m ! ix ! iy ! j) * ny + nat (index_py m ! ix ! iy ! j)))
              * cnj (phi ! (nat (index_qx m ! ix ! iy ! j) * ny + nat (index_qy m ! ix ! iy ! j))))"
    if "ix < nx" "iy < ny" for ix iy
  proof -
    have "S ! ix ! iy = sum_list (prod3 ! ix ! iy)"
      using that shape3_D [OF sp3] by (simp add: S_def)
    also have "\<dots> = (\<Sum>j<length (prod3 ! ix ! iy). prod3 ! ix ! iy ! j)"
      by (rule sum_list_lessThan)
    also have "\<dots> = (\<Sum>j<?N. prod3 ! ix ! iy ! j)"
      using shape3_D(3) [OF sp3 that] by simp
    also have "\<dots> = (\<Sum>j<?N. complex_of_real (mat m ! ix ! iy ! j)
              * cnj (phi ! (nat (index_px m ! ix ! iy ! j) * ny + nat (index_py m ! ix ! iy ! j)))
              * cnj (phi ! (nat (index_qx m ! ix ! iy ! j) * ny + nat (index_qy m ! ix ! iy ! j))))"
      by (rule sum.cong) (simp_all add: p3 [OF that])
    finally show ?thesis .
  qed
  have lS: "length S = nx"
    and lSi: "\<And>ix. ix < nx \<Longrightarrow> length (S ! ix) = ny"
    using shape3_D [OF sp3] by (simp_all add: S_def)
  have llin: "length lin = nx" using lP by (simp add: lin_def)
  have llini: "length (lin ! ix) = ny" if "ix < nx" for ix
    using that lP lPi [OF that] l by (simp add: lin_def)
  have line: "lin ! ix ! iy = - \<i> * complex_of_real (ky m ! iy) * phi ! (ix * ny + iy)"
    if "ix < nx" "iy < ny" for ix iy
    using that lP lPi [OF that(1)] l Pe [OF that] by (simp add: lin_def)
  have ld: "length dphi = nx" using llin lS by (simp add: dphi_def)
  have ldi: "length (dphi ! ix) = ny" if "ix < nx" for ix
    using that llin lS llini [OF that] lSi [OF that] by (simp add: dphi_def)
  have de: "dphi ! ix ! iy = lin ! ix ! iy + S ! ix ! iy"
    if "ix < nx" "iy < ny" for ix iy
    using that llin lS llini [OF that(1)] lSi [OF that(1)] by (simp add: dphi_def)
  have lk: "length (k2 m) = nx"
    using l by (simp add: hm_init_fields(3) [OF init] k2_grid_length)
  have lki: "length (k2 m ! ix) = ny" if "ix < nx" for ix
    using that l by (simp add: hm_init_fields(3) [OF init] k2_grid_row_length)
  have lr: "length rows = nx" using ld lk by (simp add: rows_def)
  have lri: "length (rows ! ix) = ny" if "ix < nx" for ix
    using that ld lk ldi [OF that] lki [OF that] by (simp add: rows_def)
  have re: "rows ! ix ! iy = dphi ! ix ! iy / complex_of_real (1 + k2 m ! ix ! iy)"
    if "ix < nx" "iy < ny" for ix iy
    using that ld lk ldi [OF that(1)] lki [OF that(1)] by (simp add: rows_def)
  have uni: "\<forall>row\<in>set rows. length row = ny"
    using lr lri by (auto simp: in_set_conv_nth)
  have lout: "length (concat rows) = nx * ny"
    using concat_uniform_length [OF uni] lr by simp
  have "\<forall>ix<nx. \<forall>iy<ny.
          concat rows ! (ix * ny + iy) =
            (- \<i> * complex_of_real (ky m ! iy) * phi ! (ix * ny + iy)
             + (\<Sum>j<nx * ny.
                  complex_of_real (mat m ! ix ! iy ! j)
                  * cnj (phi ! (nat (index_px m ! ix ! iy ! j) * ny
                                + nat (index_py m ! ix ! iy ! j)))
                  * cnj (phi ! (nat (index_qx m ! ix ! iy ! j) * ny
                                + nat (index_qy m ! ix ! iy ! j)))))
            / complex_of_real (1 + k2 m ! ix ! iy)
          \<and> 1 \<le> 1 + k2 m ! ix ! iy"
  proof (intro allI impI conjI)
    fix ix iy
    assume ix: "ix < nx" and iy: "iy < ny"
    have "concat rows ! (ix * ny + iy) = rows ! ix ! iy"
      using concat_uniform_nth [OF uni] ix iy lr by simp
    also have "\<dots> = dphi ! ix ! iy / complex_of_real (1 + k2 m ! ix ! iy)"
      by (rule re [OF ix iy])
    also have "dphi ! ix ! iy = lin ! ix ! iy + S ! ix ! iy"
      by (rule de [OF ix iy])
    also have "lin ! ix ! iy = - \<i> * complex_of_real (ky m ! iy) * phi ! (ix * ny + iy)"
      by (rule line [OF ix iy])
    also have "S ! ix ! iy =
             (\<Sum>j<?N. complex_of_real (mat m ! ix ! iy ! j)
              * cnj (phi ! (nat (index_px m ! ix ! iy ! j) * ny + nat (index_py m ! ix ! iy ! j)))
              * cnj (phi ! (nat (index_qx m ! ix ! iy ! j) * ny + nat (index_qy m ! ix ! iy ! j))))"
      by (rule Se [OF ix iy])
    finally show "concat rows ! (ix * ny + iy) =
            (- \<i> * complex_of_real (ky m ! iy) * phi ! (ix * ny + iy)
             + (\<Sum>j<nx * ny.
                  complex_of_real (mat m ! ix ! iy ! j)
                  * cnj (phi ! (nat (index_px m ! ix ! iy ! j) * ny
                                + nat (index_py m ! ix ! iy ! j)))
                  * cnj (phi ! (nat (index_qx m ! ix ! iy ! j) * ny
                                + nat (index_qy m ! ix ! iy ! j)))))
            / complex_of_real (1 + k2 m ! ix ! iy)" .
    show "1 \<le> 1 + k2 m ! ix ! iy"
      using k2_nonneg [OF init ix iy] by simp
  qed
  with out lout show ?thesis by blast
qed

lemma sum_upto_9:
  fixes f :: "nat \<Rightarrow> complex"
  shows "(\<Sum>j<9. f j) = f 0 + f 1 + f 2 + f 3 + f 4 + f 5 + f 6 + f 7 + f 8"
  by (simp add: eval_nat_numeral lessThan_Suc add.assoc add.commute add.left_commute)

theorem hm_dfdt_formula_witness:
  "\<exists>m out. hm_init 1 3 3 = Inr m \<and> hm_dfdt m 0 (replicate 9 (1 + \<i>)) = Inr out
      \<and> length out = 9 \<and> out ! 3 = (\<i> - 1) / 2 \<and> k2 m ! 1 ! 0 = 1"
proof -
  obtain m where init: "hm_init 1 3 3 = Inr m"
    using hm_init_ok [of 3 3 1] by auto
  have kxm: "kx m = [- 1, 0, 1]" and kym: "ky m = [- 1, 0, 1]"
    using hm_init_fields(1,2) [OF init] by (simp_all add: linspace_def upt_rec)
  have k2m: "k2 m ! 1 ! 0 = 1"
    using k2_grid_entry [of 1 "kx m" 0 "ky m"]
    by (simp add: hm_init_fields(3) [OF init]) (simp add: kxm kym)
  let ?phi = "replicate 9 (1 + \<i>)"
  from hm_dfdt_formula [OF init, of ?phi 0]
  obtain out where o: "hm_dfdt m 0 ?phi = Inr out" and lo: "length out = 9"
    and f: "\<And>ix iy. ix < 3 \<Longrightarrow> iy < 3 \<Longrightarrow>
              out ! (ix * 3 + iy) =
                (- \<i> * complex_of_real (ky m ! iy) * ?phi ! (ix * 3 + iy)
                 + (\<Sum>j<3 * 3.
                      complex_of_real (mat m ! ix ! iy ! j)
                      * cnj (?phi ! (nat (index_px m ! ix ! iy ! j) * 3
                                     + nat (index_py m ! ix ! iy ! j)))
                      * cnj (?phi ! (nat (index_qx m ! ix ! iy ! j) * 3
                                     + nat (index_qy m ! ix ! iy ! j)))))
                / complex_of_real (1 + k2 m ! ix ! iy)"
    by auto
  have c: "cnj (?phi ! (nat (X ! 1 ! 0 ! j) * 3 + nat (Y ! 1 ! 0 ! j))) = 1 - \<i>"
    if "0 \<le> X ! 1 ! 0 ! j \<and> X ! 1 ! 0 ! j < int 3" "0 \<le> Y ! 1 ! 0 ! j \<and> Y ! 1 ! 0 ! j < int 3"
    for X Y :: "int list list list" and j
  proof -
    have "nat (X ! 1 ! 0 ! j) * 3 + nat (Y ! 1 ! 0 ! j) < 9" using that by auto
    then show ?thesis by (simp add: complex_eq_iff)
  qed
  have t: "complex_of_real (mat m ! 1 ! 0 ! j)
             * cnj (?phi ! (nat (index_px m ! 1 ! 0 ! j) * 3 + nat (index_py m ! 1 ! 0 ! j)))
             * cnj (?phi ! (nat (index_qx m ! 1 ! 0 ! j) * 3 + nat (index_qy m ! 1 ! 0 ! j)))
           = complex_of_real (mat m ! 1 ! 0 ! j) * (1 - \<i>) * (1 - \<i>)"
    if "j < 3 * 3" for j
    using c [OF model_indices(1) [OF init _ _ that, of 1 0] model_indices(2) [OF init _ _ that, of 1 0]]
      c [OF model_indices(3) [OF init _ _ that, of 1 0] model_indices(4) [OF init _ _ that, of 1 0]]
    by simp
  have e: "mat m ! 1 ! 0 ! 0 = 0" "mat m ! 1 ! 0 ! 1 = - 2" "mat m ! 1 ! 0 ! 2 = - 1"
    "mat m ! 1 ! 0 ! 3 = 0" "mat m ! 1 ! 0 ! 4 = 0" "mat m ! 1 ! 0 ! 5 = 0"
    "mat m ! 1 ! 0 ! 6 = 0" "mat m ! 1 ! 0 ! 7 = 2" "mat m ! 1 ! 0 ! 8 = 1"
    using hm_init_entries(5) [OF init, of 1 0 0] hm_init_entries(5) [OF init, of 1 0 1]
      hm_init_entries(5) [OF init, of 1 0 2] hm_init_entries(5) [OF init, of 1 0 3]
      hm_init_entries(5) [OF init, of 1 0 4] hm_init_entries(5) [OF init, of 1 0 5]
      hm_init_entries(5) [OF init, of 1 0 6] hm_init_entries(5) [OF init, of 1 0 7]
      hm_init_entries(5) [OF init, of 1 0 8]
    by (simp_all add: third_def on_grid_def kxm kym)
  have "(\<Sum>j<3 * 3.
            complex_of_real (mat m ! 1 ! 0 ! j)
            * cnj (?phi ! (nat (index_px m ! 1 ! 0 ! j) * 3 + nat (index_py m ! 1 ! 0 ! j)))
            * cnj (?phi ! (nat (index_qx m ! 1 ! 0 ! j) * 3 + nat (index_qy m ! 1 ! 0 ! j))))
        = (\<Sum>j<3 * 3. complex_of_real (mat m ! 1 ! 0 ! j) * (1 - \<i>) * (1 - \<i>))"
  proof (rule sum.cong)
    fix j :: nat
    assume "j \<in> {..<3 * 3}"
    then have "j < 3 * 3" by simp
    then show "complex_of_real (mat m ! 1 ! 0 ! j)
            * cnj (?phi ! (nat (index_px m ! 1 ! 0 ! j) * 3 + nat (index_py m ! 1 ! 0 ! j)))
            * cnj (?phi ! (nat (index_qx m ! 1 ! 0 ! j) * 3 + nat (index_qy m ! 1 ! 0 ! j)))
          = complex_of_real (mat m ! 1 ! 0 ! j) * (1 - \<i>) * (1 - \<i>)"
      by (rule t)
  qed (rule refl)
  also have "\<dots> = 0"
    using e by (simp add: sum_upto_9 complex_eq_iff)
  finally have s: "(\<Sum>j<3 * 3.
            complex_of_real (mat m ! 1 ! 0 ! j)
            * cnj (?phi ! (nat (index_px m ! 1 ! 0 ! j) * 3 + nat (index_py m ! 1 ! 0 ! j)))
            * cnj (?phi ! (nat (index_qx m ! 1 ! 0 ! j) * 3 + nat (index_qy m ! 1 ! 0 ! j))))
        = 0" .
  have "out ! 3 = (\<i> - 1) / 2"
    using f [of 1 0] k2m by (simp only: s) (simp add: kym complex_eq_iff algebra_simps)
  with init o lo k2m show ?thesis by blast
qed

section \<open>Properties of the labelled datasets\<close>

text \<open>
  C9, as amended.  For every model and every result record, the dataset \<^verbatim>\<open>to_xarray\<close>
  builds names the dimensions \<open>kx, ky, time\<close> (spectral model) or \<open>x, v, time\<close>
  (phase-space model) on its arrays and gives them their coordinate values; the
  integrator's status, message and success are data variables without dimensions, and the
  dataset has no attributes.
\<close>

theorem to_xarray_contents:
  "attrs (fst (hm_to_xarray self r)) = []
   \<and> map_of (data_vars (fst (hm_to_xarray self r))) ''phi''
       = Some (Array [''kx'', ''ky'', ''time''] (res_y r))
   \<and> map_of (data_vars (fst (hm_to_xarray self r))) ''status'' = Some (IntVal (res_status r))
   \<and> map_of (data_vars (fst (hm_to_xarray self r))) ''message'' = Some (StrVal (res_message r))
   \<and> map_of (data_vars (fst (hm_to_xarray self r))) ''success'' = Some (BoolVal (res_success r))
   \<and> map fst (coords (fst (hm_to_xarray self r))) = [''kx'', ''ky'', ''time'']
   \<and> map_of (coords (fst (hm_to_xarray self r))) ''time'' = Some (res_t r)
   \<and> attrs (fst (hc_to_xarray m q)) = []
   \<and> map_of (data_vars (fst (hc_to_xarray m q))) ''F''
       = Some (Array [''x'', ''v'', ''time''] (res_f q))
   \<and> map_of (data_vars (fst (hc_to_xarray m q))) ''V'' = Some (Vector ''time'' (res_V q))
   \<and> map_of (data_vars (fst (hc_to_xarray m q))) ''E'' = Some (Vector ''time'' (res_E q))
   \<and> map_of (data_vars (fst (hc_to_xarray m q))) ''status'' = Some (IntVal (res_status q))
   \<and> map_of (data_vars (fst (hc_to_xarray m q))) ''message'' = Some (StrVal (res_message q))
   \<and> map_of (data_vars (fst (hc_to_xarray m q))) ''success'' = Some (BoolVal (res_success q))
   \<and> map fst (coords (fst (hc_to_xarray m q))) = [''x'', ''v'', ''time'']
   \<and> map_of (coords (fst (hc_to_xarray m q))) ''time'' = Some (res_t q)"
  by (simp add: hm_to_xarray_def hc_to_xarray_def)

text \<open>
  C9 as stated fails: in the dataset built from \<open>res_small\<close> the key \<open>status\<close> is not
  among the attributes (there are none); it is a data variable.
\<close>

theorem to_xarray_attrs_counterexample:
  "map_of (attrs (fst (hc_to_xarray hc_small res_small))) ''status'' = None
   \<and> map_of (attrs (fst (hc_to_xarray hc_small res_small))) ''message'' = None
   \<and> map_of (attrs (fst (hc_to_xarray hc_small res_small))) ''success'' = None
   \<and> map_of (data_vars (fst (hc_to_xarray hc_small res_small))) ''status'' = Some (IntVal 0)"
  by (simp add: hc_to_xarray_def res_small_def)

text \<open>
  C10.  \<^verbatim>\<open>to_xarray\<close> leaves the result record as it was, and the coordinate arrays of
  the dataset are the model's grids themselves: \<open>kx\<close> and \<open>ky\<close> for the spectral model,
  \<open>x\<close> and \<open>v\<close> for the phase-space model.
\<close>

theorem to_xarray_frame:
  "snd (hm_to_xarray self r) = r
   \<and> map_of (coords (fst (hm_to_xarray self r))) ''kx'' = Some (kx self)
   \<and> map_of (coords (fst (hm_to_xarray self r))) ''ky'' = Some (ky self)
   \<and> snd (hc_to_xarray m q) = q
   \<and> map_of (coords (fst (hc_to_xarray m q))) ''x'' = Some (hc_x m)
   \<and> map_of (coords (fst (hc_to_xarray m q))) ''v'' = Some (hc_v m)"
  by (simp add: hm_to_xarray_def hc_to_xarray_def)

end
